theory Spec2Isabelle
  imports Complex_Main
begin

section \<open>Data model\<close>

text \<open>
  The repository holds two editors. Both keep the diagram as two React state
  arrays, \<open>nodes\<close> and \<open>edges\<close>, of React Flow \<open>Node\<close> and \<open>Edge\<close> objects.

  A React Flow \<open>Connection\<close>; an \<open>Edge\<close> is the object built by the editors from a
  connection: the four connection fields plus \<open>id\<close>, \<open>type\<close>, \<open>markerEnd\<close>
  (type and colour) and \<open>style\<close> (stroke and stroke width).
\<close>

record connection =
  source :: string
  sourceHandle :: "string option"
  target :: string
  targetHandle :: "string option"

record edge = connection +
  edge_id :: string
  edge_type :: string
  markerEnd :: "string \<times> string"
  style :: "string \<times> nat"

text \<open>
  The indexed editor stores the function \<open>handleLabelChange\<close> in every node it
  creates, restores or loads, as \<open>data.onChangeLabel\<close>. That function is made
  by \<open>useCallback\<close> with the dependencies \<open>edges\<close> and \<open>pushHistory\<close>, and
  \<open>pushHistory\<close> with the dependency \<open>historyIndex\<close>: the function object stored
  in a node keeps the \<open>edges\<close> and the \<open>historyIndex\<close> of the render it was made
  in, however the state moves on afterwards. A stored function is therefore
  recorded by these two captured values. (\<open>skipHistoryRef\<close> is a ref and the
  state setters take updater functions: both see the state of the call.)
\<close>

record closure =
  closure_historyIndex :: nat
  closure_edges :: "edge list"

text \<open>
  A node carries \<open>id\<close>, \<open>type\<close>, \<open>position\<close> and a \<open>data\<close> object; the editors
  put \<open>label\<close> and \<open>shape\<close> (two-stack editor) or \<open>label\<close> and the function
  \<open>onChangeLabel\<close> (indexed editor) into \<open>data\<close>. Coordinates are carried,
  never computed with.
\<close>

record node =
  node_id :: string
  node_type :: string
  position :: "real \<times> real"
  label :: string
  shape :: "string option"
  onChangeLabel :: "closure option"

text \<open>
  The object \<open>{ nodes, edges }\<close>: the live diagram, and the shape of every
  history entry (\<open>HistoryEntry\<close> in the indexed editor).
\<close>

record store =
  nodes :: "node list"
  edges :: "edge list"

text \<open>
  \<open>JSON.parse(JSON.stringify(v))\<close>: a structural copy in which function-valued
  properties are dropped. Strings, finite numbers, \<open>null\<close> and nested objects
  are reproduced as they are, so an edge is copied unchanged and a node loses
  only its \<open>onChangeLabel\<close> function.
\<close>

definition json_copy_node :: "node \<Rightarrow> node" where
  "json_copy_node n = n\<lparr>onChangeLabel := None\<rparr>"

definition json_copy_nodes :: "node list \<Rightarrow> node list" where
  "json_copy_nodes ns = map json_copy_node ns"

definition json_copy_edges :: "edge list \<Rightarrow> edge list" where
  "json_copy_edges es = es"

text \<open>The object literal \<open>{ nodes, edges }\<close> built from the live state.\<close>

definition snapshot :: "'a store_scheme \<Rightarrow> store" where
  "snapshot s = \<lparr>nodes = nodes s, edges = edges s\<rparr>"

section \<open>The two-stack editor\<close>

text \<open>
  State of the component: the live arrays and the two refs \<open>historyRef\<close> and
  \<open>redoRef\<close>. The handlers of this section are those of the current render,
  running as the first handler since that render: the \<open>nodes\<close> and \<open>edges\<close>
  they captured are the live ones. (A handler that runs later in the same
  event is treated further down.) \<open>push\<close> appends at the end of an array and
  \<open>pop\<close> removes its last element, returning \<open>undefined\<close> and changing nothing
  on an empty array.
\<close>

record stack_app = store +
  historyRef :: "store list"
  redoRef :: "store list"

definition stack_init :: stack_app where
  "stack_init = \<lparr>nodes = [], edges = [], historyRef = [], redoRef = []\<rparr>"

definition pushToHistory :: "stack_app \<Rightarrow> stack_app" where
  "pushToHistory s =
     s\<lparr>historyRef := historyRef s @
          [\<lparr>nodes = json_copy_nodes (nodes s), edges = json_copy_edges (edges s)\<rparr>],
       redoRef := []\<rparr>"

definition handleUndo :: "stack_app \<Rightarrow> stack_app" where
  "handleUndo s =
     (case rev (historyRef s) of
        [] \<Rightarrow> s
      | lastEntry # rest \<Rightarrow>
          s\<lparr>historyRef := rev rest,
            redoRef := redoRef s @ [snapshot s],
            nodes := nodes lastEntry,
            edges := edges lastEntry\<rparr>)"

definition handleRedo :: "stack_app \<Rightarrow> stack_app" where
  "handleRedo s =
     (case rev (redoRef s) of
        [] \<Rightarrow> s
      | nextEntry # rest \<Rightarrow>
          s\<lparr>redoRef := rev rest,
            historyRef := historyRef s @ [snapshot s],
            nodes := nodes nextEntry,
            edges := edges nextEntry\<rparr>)"

text \<open>
  \<open>applyNodeChanges\<close> and \<open>applyEdgeChanges\<close> belong to the React Flow library;
  the handlers take them as parameters.
\<close>

definition onNodesChange ::
  "('nc \<Rightarrow> node list \<Rightarrow> node list) \<Rightarrow> 'nc \<Rightarrow> stack_app \<Rightarrow> stack_app" where
  "onNodesChange applyNodeChanges changes s =
     (let s1 = pushToHistory s in s1\<lparr>nodes := applyNodeChanges changes (nodes s1)\<rparr>)"

definition onEdgesChange ::
  "('ec \<Rightarrow> edge list \<Rightarrow> edge list) \<Rightarrow> 'ec \<Rightarrow> stack_app \<Rightarrow> stack_app" where
  "onEdgesChange applyEdgeChanges changes s =
     (let s1 = pushToHistory s in s1\<lparr>edges := applyEdgeChanges changes (edges s1)\<rparr>)"

text \<open>The edge built in \<open>onConnect\<close>; \<open>uid\<close> is the value of \<open>uuidv4()\<close>.\<close>

definition stack_newEdge :: "string \<Rightarrow> connection \<Rightarrow> edge" where
  "stack_newEdge uid c =
     \<lparr>source = source c, sourceHandle = sourceHandle c,
      target = target c, targetHandle = targetHandle c,
      edge_id = uid, edge_type = ''default'',
      markerEnd = (''arrowclosed'', ''#003366''),
      style = (''#003366'', 2)\<rparr>"

definition onConnect :: "string \<Rightarrow> connection \<Rightarrow> stack_app \<Rightarrow> stack_app" where
  "onConnect uid c s =
     (let s1 = pushToHistory s in s1\<lparr>edges := edges s1 @ [stack_newEdge uid c]\<rparr>)"

datatype shape_kind = rectangle | circle | diamond

fun shape_name :: "shape_kind \<Rightarrow> string" where
  "shape_name rectangle = ''rectangle''"
| "shape_name circle = ''circle''"
| "shape_name diamond = ''diamond''"

text \<open>\<open>shape.charAt(0).toUpperCase() + shape.slice(1)\<close> on the three shape names.\<close>

fun shape_label :: "shape_kind \<Rightarrow> string" where
  "shape_label rectangle = ''Rectangle''"
| "shape_label circle = ''Circle''"
| "shape_label diamond = ''Diamond''"

text \<open>
  \<open>createNode\<close>; \<open>uid\<close> is the value of \<open>uuidv4()\<close> and \<open>pos\<close> the value of
  \<open>randomPosition()\<close>.
\<close>

definition createNode ::
  "string \<Rightarrow> real \<times> real \<Rightarrow> shape_kind \<Rightarrow> stack_app \<Rightarrow> stack_app" where
  "createNode uid pos sh s =
     (let s1 = pushToHistory s in
      s1\<lparr>nodes := nodes s1 @
           [\<lparr>node_id = uid, node_type = ''custom'', position = pos,
             label = shape_label sh, shape = Some (shape_name sh),
             onChangeLabel = None\<rparr>]\<rparr>)"

definition onNodeLabelChange :: "string \<Rightarrow> string \<Rightarrow> stack_app \<Rightarrow> stack_app" where
  "onNodeLabelChange i l s =
     (let s1 = pushToHistory s in
      s1\<lparr>nodes := map (\<lambda>n. if node_id n = i then n\<lparr>label := l\<rparr> else n) (nodes s1)\<rparr>)"

text \<open>The mutation events of the two-stack editor, and a run of them.\<close>

datatype ('nc, 'ec) stack_mutation =
    NodesChange 'nc
  | EdgesChange 'ec
  | Connect string connection
  | CreateNode string "real \<times> real" shape_kind
  | LabelChange string string

fun stack_mutate ::
  "('nc \<Rightarrow> node list \<Rightarrow> node list) \<Rightarrow> ('ec \<Rightarrow> edge list \<Rightarrow> edge list) \<Rightarrow>
   ('nc, 'ec) stack_mutation \<Rightarrow> stack_app \<Rightarrow> stack_app" where
  "stack_mutate an ae (NodesChange ch) s = onNodesChange an ch s"
| "stack_mutate an ae (EdgesChange ch) s = onEdgesChange ae ch s"
| "stack_mutate an ae (Connect uid c) s = onConnect uid c s"
| "stack_mutate an ae (CreateNode uid pos sh) s = createNode uid pos sh s"
| "stack_mutate an ae (LabelChange i l) s = onNodeLabelChange i l s"

fun stack_run ::
  "('nc \<Rightarrow> node list \<Rightarrow> node list) \<Rightarrow> ('ec \<Rightarrow> edge list \<Rightarrow> edge list) \<Rightarrow>
   ('nc, 'ec) stack_mutation list \<Rightarrow> stack_app \<Rightarrow> stack_app" where
  "stack_run an ae [] s = s"
| "stack_run an ae (m # ms) s = stack_run an ae ms (stack_mutate an ae m s)"

subsection \<open>Several handlers in one event\<close>

text \<open>
  \<open>pushToHistory\<close> is made by \<open>useCallback\<close> with the dependencies \<open>nodes\<close> and
  \<open>edges\<close>: it copies the arrays of the render it was made in, \<open>r\<close>, while
  \<open>setNodes((nds) => ...)\<close> and \<open>setEdges((eds) => ...)\<close> work on the state as it
  is when they run. When the rendering surface calls two handlers before the
  component renders again (removing a node together with its edges calls
  \<open>onNodesChange\<close> and \<open>onEdgesChange\<close>), both belong to the same render.
\<close>

definition pushToHistory_in :: "store \<Rightarrow> stack_app \<Rightarrow> stack_app" where
  "pushToHistory_in r s =
     s\<lparr>historyRef := historyRef s @
          [\<lparr>nodes = json_copy_nodes (nodes r), edges = json_copy_edges (edges r)\<rparr>],
       redoRef := []\<rparr>"

fun stack_mutate_in ::
  "store \<Rightarrow> ('nc \<Rightarrow> node list \<Rightarrow> node list) \<Rightarrow> ('ec \<Rightarrow> edge list \<Rightarrow> edge list) \<Rightarrow>
   ('nc, 'ec) stack_mutation \<Rightarrow> stack_app \<Rightarrow> stack_app" where
  "stack_mutate_in r an ae (NodesChange ch) s =
     (let s1 = pushToHistory_in r s in s1\<lparr>nodes := an ch (nodes s1)\<rparr>)"
| "stack_mutate_in r an ae (EdgesChange ch) s =
     (let s1 = pushToHistory_in r s in s1\<lparr>edges := ae ch (edges s1)\<rparr>)"
| "stack_mutate_in r an ae (Connect uid c) s =
     (let s1 = pushToHistory_in r s in s1\<lparr>edges := edges s1 @ [stack_newEdge uid c]\<rparr>)"
| "stack_mutate_in r an ae (CreateNode uid pos sh) s =
     (let s1 = pushToHistory_in r s in
      s1\<lparr>nodes := nodes s1 @
           [\<lparr>node_id = uid, node_type = ''custom'', position = pos,
             label = shape_label sh, shape = Some (shape_name sh),
             onChangeLabel = None\<rparr>]\<rparr>)"
| "stack_mutate_in r an ae (LabelChange i l) s =
     (let s1 = pushToHistory_in r s in
      s1\<lparr>nodes := map (\<lambda>n. if node_id n = i then n\<lparr>label := l\<rparr> else n) (nodes s1)\<rparr>)"

section \<open>The indexed editor\<close>

text \<open>
  State of the component: the live arrays, the \<open>history\<close> array with the
  position \<open>historyIndex\<close> of the current entry, and the ref \<open>skipHistoryRef\<close>
  that suspends recording after an undo, a redo or a load until a zero-delay
  timer fires. \<open>history\<close> starts with one empty entry. Updater functions are
  run once, as in a production build. The handlers given to the rendering
  surface and to the toolbar are those of the current render, running as the
  first handler since that render: the state they captured is the state of
  the call. The label function stored in a node is not; it is treated with
  \<open>handleLabelChange\<close> below.
\<close>

record index_app = store +
  history :: "store list"
  historyIndex :: nat
  skipHistoryRef :: bool

definition index_init :: index_app where
  "index_init =
     \<lparr>nodes = [], edges = [], history = [\<lparr>nodes = [], edges = []\<rparr>],
      historyIndex = 0, skipHistoryRef = False\<rparr>"

text \<open>
  \<open>pushHistory\<close> as made in a render whose \<open>historyIndex\<close> was \<open>hi\<close>:
  \<open>prev.slice(0, historyIndex + 1)\<close> cuts the history of the call at the
  captured index (\<open>slice\<close> is \<open>take\<close>), while \<open>setHistoryIndex((idx) => idx + 1)\<close>
  counts on from the index of the call.
\<close>

definition pushHistory :: "nat \<Rightarrow> node list \<Rightarrow> edge list \<Rightarrow> index_app \<Rightarrow> index_app" where
  "pushHistory hi newNodes newEdges s =
     (if skipHistoryRef s then s
      else s\<lparr>history := take (hi + 1) (history s) @
                 [\<lparr>nodes = json_copy_nodes newNodes, edges = json_copy_edges newEdges\<rparr>],
             historyIndex := historyIndex s + 1\<rparr>)"

text \<open>The \<open>handleLabelChange\<close> made in the render whose state is \<open>s\<close>.\<close>

definition current_callback :: "index_app \<Rightarrow> closure" where
  "current_callback s = \<lparr>closure_historyIndex = historyIndex s, closure_edges = edges s\<rparr>"

text \<open>
  \<open>onNodesChange\<close>, \<open>onEdgesChange\<close>, \<open>onConnect\<close> and \<open>onDrop\<close> are handed to the
  rendering surface anew with every render: when one of them is called, the
  \<open>nodes\<close>, \<open>edges\<close> and \<open>historyIndex\<close> it captured are those of the state.
\<close>

definition App_onNodesChange ::
  "('nc \<Rightarrow> node list \<Rightarrow> node list) \<Rightarrow> 'nc \<Rightarrow> index_app \<Rightarrow> index_app" where
  "App_onNodesChange applyNodeChanges changes s =
     (let updatedNodes = applyNodeChanges changes (nodes s);
          s1 = pushHistory (historyIndex s) updatedNodes (edges s) s
      in s1\<lparr>nodes := updatedNodes\<rparr>)"

definition App_onEdgesChange ::
  "('ec \<Rightarrow> edge list \<Rightarrow> edge list) \<Rightarrow> 'ec \<Rightarrow> index_app \<Rightarrow> index_app" where
  "App_onEdgesChange applyEdgeChanges changes s =
     (let updatedEdges = applyEdgeChanges changes (edges s);
          s1 = pushHistory (historyIndex s) (nodes s) updatedEdges s
      in s1\<lparr>edges := updatedEdges\<rparr>)"

text \<open>
  The edge built in the indexed \<open>onConnect\<close>: the connection's own fields, an
  id made of source, target and \<open>now\<close> (the digits of \<open>Date.now()\<close>), and the
  marker and stroke styling. \<open>addEdge\<close> belongs to the React Flow library and
  is a parameter.
\<close>

definition App_newEdge :: "string \<Rightarrow> connection \<Rightarrow> edge" where
  "App_newEdge now params =
     \<lparr>source = source params, sourceHandle = sourceHandle params,
      target = target params, targetHandle = targetHandle params,
      edge_id = source params @ ''-'' @ target params @ ''-'' @ now,
      edge_type = ''default'',
      markerEnd = (''arrowclosed'', ''#01579B''),
      style = (''#01579B'', 2)\<rparr>"

definition App_onConnect ::
  "(edge \<Rightarrow> edge list \<Rightarrow> edge list) \<Rightarrow> string \<Rightarrow> connection \<Rightarrow> index_app \<Rightarrow> index_app" where
  "App_onConnect addEdge now params s =
     (let updatedEdges = addEdge (App_newEdge now params) (edges s);
          s1 = pushHistory (historyIndex s) (nodes s) updatedEdges s
      in s1\<lparr>edges := updatedEdges\<rparr>)"

text \<open>
  \<open>onDrop\<close>. \<open>ty\<close> is the node type read from the drag data, \<open>None\<close> when the
  data string is empty, is no JSON text or holds no type; \<open>pos\<close> is the
  projected position, \<open>None\<close> when the wrapper bounds or the React Flow instance
  are missing. In these cases the handler is left before anything changes.
  The new node gets the \<open>handleLabelChange\<close> of the render the drop happens in.
\<close>

definition onDrop ::
  "string option \<Rightarrow> (real \<times> real) option \<Rightarrow> string \<Rightarrow> index_app \<Rightarrow> index_app" where
  "onDrop ty pos now s =
     (case ty of
        None \<Rightarrow> s
      | Some t \<Rightarrow>
          (case pos of
             None \<Rightarrow> s
           | Some p \<Rightarrow>
               (let newNode = \<lparr>node_id = ''node_'' @ now, node_type = t, position = p,
                                label = [], shape = None,
                                onChangeLabel = Some (current_callback s)\<rparr>;
                    s1 = s\<lparr>nodes := nodes s @ [newNode]\<rparr>
                in pushHistory (historyIndex s) (nodes s @ [newNode]) (edges s) s1)))"

text \<open>
  \<open>handleLabelChange\<close> is never handed to the rendering surface. It is only
  called as the function stored in a node, by \<open>handleBlur\<close> below: \<open>c\<close> holds
  what that function captured. The \<open>edges\<close> it records and the index at which
  its \<open>pushHistory\<close> cuts the history are the captured ones; the function it
  stores in the relabelled node is itself.
\<close>

definition handleLabelChange :: "closure \<Rightarrow> string \<Rightarrow> string \<Rightarrow> index_app \<Rightarrow> index_app" where
  "handleLabelChange c i v s =
     (let updatedNodes =
            map (\<lambda>n. if node_id n = i then n\<lparr>label := v, onChangeLabel := Some c\<rparr> else n)
              (nodes s);
          s1 = pushHistory (closure_historyIndex c) updatedNodes (closure_edges c) s
      in s1\<lparr>nodes := updatedNodes\<rparr>)"

text \<open>
  \<open>{ ...n, data: { ...n.data, onChangeLabel: handleLabelChange } }\<close>: a node
  read back from a history entry or from a file gets the \<open>handleLabelChange\<close>
  of the render that reads it.
\<close>

definition restore_callback :: "closure \<Rightarrow> node \<Rightarrow> node" where
  "restore_callback c n = n\<lparr>onChangeLabel := Some c\<rparr>"

text \<open>
  \<open>undo\<close> and \<open>redo\<close>. The ref is set before \<open>history[newIndex]\<close> is read;
  were the index beyond the array, the read would give \<open>undefined\<close>, the
  property access on it would throw a TypeError out of the handler, and only
  the ref would have changed. In \<open>redo\<close> the guard keeps the index in range.
\<close>

definition undo :: "index_app \<Rightarrow> index_app" where
  "undo s =
     (if 0 < historyIndex s then
        (let newIndex = historyIndex s - 1 in
         if newIndex < length (history s) then
           (let state = history s ! newIndex in
            s\<lparr>skipHistoryRef := True,
              nodes := map (restore_callback (current_callback s)) (nodes state),
              edges := edges state,
              historyIndex := newIndex\<rparr>)
         else s\<lparr>skipHistoryRef := True\<rparr>)
      else s)"

text \<open>The case in which \<open>undo\<close> is left by that TypeError.\<close>

definition undo_throws :: "index_app \<Rightarrow> bool" where
  "undo_throws s \<longleftrightarrow> 0 < historyIndex s \<and> \<not> historyIndex s - 1 < length (history s)"

definition redo :: "index_app \<Rightarrow> index_app" where
  "redo s =
     (if historyIndex s + 1 < length (history s) then
        (let newIndex = historyIndex s + 1;
             state = history s ! newIndex in
         s\<lparr>skipHistoryRef := True,
           nodes := map (restore_callback (current_callback s)) (nodes state),
           edges := edges state,
           historyIndex := newIndex\<rparr>)
      else s)"

text \<open>The callback of \<open>setTimeout(..., 0)\<close> scheduled by undo, redo and load.\<close>

definition timeout :: "index_app \<Rightarrow> index_app" where
  "timeout s = s\<lparr>skipHistoryRef := False\<rparr>"

text \<open>
  \<open>loadDiagram\<close> reads the file as text and runs, inside one \<open>try\<close>,
  \<open>JSON.parse\<close>, the test \<open>parsed.nodes && parsed.edges\<close>, and then sets the
  ref, maps over \<open>parsed.nodes\<close>, and replaces the live state and the
  history; the \<open>catch\<close> only logs. The text is described by what these steps
  meet:
  \<^item> \<open>Unparseable\<close>: \<open>JSON.parse\<close> throws;
  \<^item> \<open>ParsedNull\<close>: it returns \<open>null\<close>, and reading \<open>parsed.nodes\<close> throws;
  \<^item> \<open>Parsed n e\<close>: it returns a value whose \<open>nodes\<close> and \<open>edges\<close> properties
    are \<open>n\<close> and \<open>e\<close>. A property is falsy (also: missing), or, for \<open>nodes\<close>,
    truthy but not to be mapped over (no \<open>map\<close> method, or a \<open>null\<close> element
    whose \<open>data\<close> is read), or an array of node or edge objects.
  A truthy \<open>edges\<close> property that is not an array of edges has no counterpart
  in the state type and is left out.
\<close>

datatype nodes_field = NodesFalsy | NodesUnmappable | NodesArray "node list"

datatype edges_field = EdgesFalsy | EdgesArray "edge list"

datatype file_text = Unparseable | ParsedNull | Parsed nodes_field edges_field

fun loadDiagram :: "file_text \<Rightarrow> index_app \<Rightarrow> index_app" where
  "loadDiagram Unparseable s = s"
| "loadDiagram ParsedNull s = s"
| "loadDiagram (Parsed NodesFalsy e) s = s"
| "loadDiagram (Parsed n EdgesFalsy) s = s"
| "loadDiagram (Parsed NodesUnmappable (EdgesArray es)) s = s\<lparr>skipHistoryRef := True\<rparr>"
| "loadDiagram (Parsed (NodesArray ns) (EdgesArray es)) s =
     (let loadedNodes = map (restore_callback (current_callback s)) ns;
          loadedEdges = es
      in s\<lparr>skipHistoryRef := True,
           nodes := loadedNodes,
           edges := loadedEdges,
           history := [\<lparr>nodes = json_copy_nodes loadedNodes,
                        edges = json_copy_edges loadedEdges\<rparr>],
           historyIndex := 0\<rparr>)"

text \<open>
  The mutation events of the indexed editor, and a run of them: the four
  handlers of the current render (a drop that reaches the end of its
  handler), and the call of a stored label function \<open>c\<close> with an id and a
  text.
\<close>

datatype ('nc, 'ec) index_mutation =
    INodesChange 'nc
  | IEdgesChange 'ec
  | IConnect string connection
  | IDrop string "real \<times> real" string
  | ILabelChange closure string string

fun is_relabel :: "('nc, 'ec) index_mutation \<Rightarrow> bool" where
  "is_relabel (ILabelChange c i v) = True"
| "is_relabel m = False"

fun index_mutate ::
  "('nc \<Rightarrow> node list \<Rightarrow> node list) \<Rightarrow> ('ec \<Rightarrow> edge list \<Rightarrow> edge list) \<Rightarrow>
   (edge \<Rightarrow> edge list \<Rightarrow> edge list) \<Rightarrow>
   ('nc, 'ec) index_mutation \<Rightarrow> index_app \<Rightarrow> index_app" where
  "index_mutate an ae ad (INodesChange ch) s = App_onNodesChange an ch s"
| "index_mutate an ae ad (IEdgesChange ch) s = App_onEdgesChange ae ch s"
| "index_mutate an ae ad (IConnect now c) s = App_onConnect ad now c s"
| "index_mutate an ae ad (IDrop ty pos now) s = onDrop (Some ty) (Some pos) now s"
| "index_mutate an ae ad (ILabelChange c i v) s = handleLabelChange c i v s"

fun index_run ::
  "('nc \<Rightarrow> node list \<Rightarrow> node list) \<Rightarrow> ('ec \<Rightarrow> edge list \<Rightarrow> edge list) \<Rightarrow>
   (edge \<Rightarrow> edge list \<Rightarrow> edge list) \<Rightarrow>
   ('nc, 'ec) index_mutation list \<Rightarrow> index_app \<Rightarrow> index_app" where
  "index_run an ae ad [] s = s"
| "index_run an ae ad (m # ms) s = index_run an ae ad ms (index_mutate an ae ad m s)"

section \<open>In-place label editing\<close>

text \<open>
  \<open>String.prototype.trim\<close> removes the leading and the trailing run of white
  space and line terminators. Over one-byte characters these are tab, line
  feed, vertical tab, form feed, carriage return, space and no-break space.
\<close>

definition is_whitespace :: "char \<Rightarrow> bool" where
  "is_whitespace c = (of_char c \<in> {9, 10, 11, 12, 13, 32, 160 :: nat})"

definition trim :: "string \<Rightarrow> string" where
  "trim t = rev (dropWhile is_whitespace (rev (dropWhile is_whitespace t)))"

text \<open>
  \<open>handleBlur\<close> of \<open>BaseShapeNode\<close> for the node \<open>n\<close> it renders and the text
  \<open>t\<close> of the input: the new value of \<open>editing\<close>, and the call made, if the
  node stores a function \<open>data.onChangeLabel\<close>: that function, the node's id
  and the trimmed text.
\<close>

definition handleBlur :: "node \<Rightarrow> string \<Rightarrow> bool \<times> (closure \<times> string \<times> string) option" where
  "handleBlur n t =
     (let v = trim t in
      (False, case onChangeLabel n of None \<Rightarrow> None | Some c \<Rightarrow> Some (c, node_id n, v)))"

text \<open>The blur of node \<open>n\<close> inside the indexed editor: the stored function is run.\<close>

definition blur_commit :: "node \<Rightarrow> string \<Rightarrow> index_app \<Rightarrow> index_app" where
  "blur_commit n t s =
     (case snd (handleBlur n t) of
        None \<Rightarrow> s
      | Some (c, i, v) \<Rightarrow> handleLabelChange c i v s)"

section \<open>Arrays as shared objects\<close>

text \<open>
  Whether a history entry shares an array with the live state is a question
  about object identity, which the value model above cannot ask. Here the
  arrays are objects: the heap lists every array allocated so far, a
  reference is a position in it, and a fresh array is appended at the end.
  A \<open>{ nodes, edges }\<close> object is the pair of its two references. The
  handlers are the same as above, with \<open>JSON.parse(JSON.stringify(a))\<close>,
  \<open>a.map(f)\<close>, \<open>[...a, x]\<close> and the library functions each returning a fresh
  array, and \<open>setNodes(a)\<close>, \<open>setEdges(a)\<close> making \<open>a\<close> itself the live array.
  The model tracks the identity of the arrays, not of the objects in them.
\<close>

record heap =
  node_arrays :: "node list list"
  edge_arrays :: "edge list list"

record ref_store = heap +
  nodes_ref :: nat
  edges_ref :: nat

text \<open>The \<open>{ nodes, edges }\<close> value a pair of references stands for.\<close>

definition deref :: "node list list \<Rightarrow> edge list list \<Rightarrow> nat \<times> nat \<Rightarrow> store" where
  "deref nas eas entry = \<lparr>nodes = nas ! fst entry, edges = eas ! snd entry\<rparr>"

text \<open>
  A write into the live array itself (such as \<open>nodes.push(x)\<close> or
  \<open>nodes.length = 0\<close>). No handler does this; it is what sharing would expose.
\<close>

definition write_live_nodes :: "node list \<Rightarrow> 'a ref_store_scheme \<Rightarrow> 'a ref_store_scheme" where
  "write_live_nodes v s = s\<lparr>node_arrays := (node_arrays s)[nodes_ref s := v]\<rparr>"

definition write_live_edges :: "edge list \<Rightarrow> 'a ref_store_scheme \<Rightarrow> 'a ref_store_scheme" where
  "write_live_edges v s = s\<lparr>edge_arrays := (edge_arrays s)[edges_ref s := v]\<rparr>"

text \<open>\<open>setNodes((nds) => f(nds))\<close> and \<open>setEdges((eds) => g(eds))\<close> with a fresh result array.\<close>

definition ref_setNodes :: "(node list \<Rightarrow> node list) \<Rightarrow> 'a ref_store_scheme \<Rightarrow> 'a ref_store_scheme" where
  "ref_setNodes f s =
     s\<lparr>node_arrays := node_arrays s @ [f (node_arrays s ! nodes_ref s)],
       nodes_ref := length (node_arrays s)\<rparr>"

definition ref_setEdges :: "(edge list \<Rightarrow> edge list) \<Rightarrow> 'a ref_store_scheme \<Rightarrow> 'a ref_store_scheme" where
  "ref_setEdges g s =
     s\<lparr>edge_arrays := edge_arrays s @ [g (edge_arrays s ! edges_ref s)],
       edges_ref := length (edge_arrays s)\<rparr>"

subsection \<open>The two-stack editor over the heap\<close>

record ref_stack_app = ref_store +
  historyRef_r :: "(nat \<times> nat) list"
  redoRef_r :: "(nat \<times> nat) list"

definition ref_stack_init :: ref_stack_app where
  "ref_stack_init =
     \<lparr>node_arrays = [[]], edge_arrays = [[]], nodes_ref = 0, edges_ref = 0,
      historyRef_r = [], redoRef_r = []\<rparr>"

definition ref_pushToHistory :: "ref_stack_app \<Rightarrow> ref_stack_app" where
  "ref_pushToHistory s =
     s\<lparr>node_arrays := node_arrays s @ [json_copy_nodes (node_arrays s ! nodes_ref s)],
       edge_arrays := edge_arrays s @ [json_copy_edges (edge_arrays s ! edges_ref s)],
       historyRef_r := historyRef_r s @ [(length (node_arrays s), length (edge_arrays s))],
       redoRef_r := []\<rparr>"

definition ref_handleUndo :: "ref_stack_app \<Rightarrow> ref_stack_app" where
  "ref_handleUndo s =
     (case rev (historyRef_r s) of
        [] \<Rightarrow> s
      | lastEntry # rest \<Rightarrow>
          s\<lparr>historyRef_r := rev rest,
            redoRef_r := redoRef_r s @ [(nodes_ref s, edges_ref s)],
            nodes_ref := fst lastEntry,
            edges_ref := snd lastEntry\<rparr>)"

definition ref_handleRedo :: "ref_stack_app \<Rightarrow> ref_stack_app" where
  "ref_handleRedo s =
     (case rev (redoRef_r s) of
        [] \<Rightarrow> s
      | nextEntry # rest \<Rightarrow>
          s\<lparr>redoRef_r := rev rest,
            historyRef_r := historyRef_r s @ [(nodes_ref s, edges_ref s)],
            nodes_ref := fst nextEntry,
            edges_ref := snd nextEntry\<rparr>)"

fun ref_stack_mutate ::
  "('nc \<Rightarrow> node list \<Rightarrow> node list) \<Rightarrow> ('ec \<Rightarrow> edge list \<Rightarrow> edge list) \<Rightarrow>
   ('nc, 'ec) stack_mutation \<Rightarrow> ref_stack_app \<Rightarrow> ref_stack_app" where
  "ref_stack_mutate an ae (NodesChange ch) s = ref_setNodes (an ch) (ref_pushToHistory s)"
| "ref_stack_mutate an ae (EdgesChange ch) s = ref_setEdges (ae ch) (ref_pushToHistory s)"
| "ref_stack_mutate an ae (Connect uid c) s =
     ref_setEdges (\<lambda>eds. eds @ [stack_newEdge uid c]) (ref_pushToHistory s)"
| "ref_stack_mutate an ae (CreateNode uid pos sh) s =
     ref_setNodes
       (\<lambda>nds. nds @ [\<lparr>node_id = uid, node_type = ''custom'', position = pos,
                       label = shape_label sh, shape = Some (shape_name sh),
                       onChangeLabel = None\<rparr>])
       (ref_pushToHistory s)"
| "ref_stack_mutate an ae (LabelChange i l) s =
     ref_setNodes (map (\<lambda>n. if node_id n = i then n\<lparr>label := l\<rparr> else n)) (ref_pushToHistory s)"

fun ref_stack_run ::
  "('nc \<Rightarrow> node list \<Rightarrow> node list) \<Rightarrow> ('ec \<Rightarrow> edge list \<Rightarrow> edge list) \<Rightarrow>
   ('nc, 'ec) stack_mutation list \<Rightarrow> ref_stack_app \<Rightarrow> ref_stack_app" where
  "ref_stack_run an ae [] s = s"
| "ref_stack_run an ae (m # ms) s = ref_stack_run an ae ms (ref_stack_mutate an ae m s)"

text \<open>The state of the value model that a heap state stands for.\<close>

definition stack_view :: "ref_stack_app \<Rightarrow> stack_app" where
  "stack_view s =
     \<lparr>nodes = node_arrays s ! nodes_ref s, edges = edge_arrays s ! edges_ref s,
      historyRef = map (deref (node_arrays s) (edge_arrays s)) (historyRef_r s),
      redoRef = map (deref (node_arrays s) (edge_arrays s)) (redoRef_r s)\<rparr>"

text \<open>
  Every reference points into the heap (\<open>allocated\<close>); no array is held twice
  among the live state and the entries of the two stacks (\<open>unshared\<close>).
\<close>

definition allocated :: "node list list \<Rightarrow> edge list list \<Rightarrow> nat \<times> nat \<Rightarrow> bool" where
  "allocated nas eas entry \<longleftrightarrow> fst entry < length nas \<and> snd entry < length eas"

definition ref_stack_wf :: "ref_stack_app \<Rightarrow> bool" where
  "ref_stack_wf s \<longleftrightarrow>
     allocated (node_arrays s) (edge_arrays s) (nodes_ref s, edges_ref s) \<and>
     list_all (allocated (node_arrays s) (edge_arrays s)) (historyRef_r s @ redoRef_r s)"

definition unshared :: "ref_stack_app \<Rightarrow> bool" where
  "unshared s \<longleftrightarrow>
     distinct (nodes_ref s # map fst (historyRef_r s @ redoRef_r s)) \<and>
     distinct (edges_ref s # map snd (historyRef_r s @ redoRef_r s))"

subsection \<open>The indexed editor over the heap\<close>

text \<open>
  The initial \<open>history\<close> entry holds two array literals of its own. \<open>onDrop\<close>
  builds the live array with \<open>concat\<close> and a second, equal one for
  \<open>pushHistory\<close>; the model lets \<open>pushHistory\<close> copy the live one. \<open>undo\<close> and
  \<open>redo\<close> pass a fresh \<open>map\<close> result to \<open>setNodes\<close> and the entry's own
  \<open>edges\<close> array to \<open>setEdges\<close>. \<open>pushHistory\<close> only reads the two arrays it is
  given, so it takes their content; the \<open>edges\<close> array that a stored label
  function captured is known by its content, which no handler changes.
\<close>

record ref_index_app = ref_store +
  history_r :: "(nat \<times> nat) list"
  historyIndex_r :: nat
  skipHistoryRef_r :: bool

definition ref_index_init :: ref_index_app where
  "ref_index_init =
     \<lparr>node_arrays = [[], []], edge_arrays = [[], []], nodes_ref = 0, edges_ref = 0,
      history_r = [(1, 1)], historyIndex_r = 0, skipHistoryRef_r = False\<rparr>"

definition ref_pushHistory ::
  "nat \<Rightarrow> node list \<Rightarrow> edge list \<Rightarrow> ref_index_app \<Rightarrow> ref_index_app" where
  "ref_pushHistory hi newNodes newEdges s =
     (if skipHistoryRef_r s then s
      else s\<lparr>node_arrays := node_arrays s @ [json_copy_nodes newNodes],
             edge_arrays := edge_arrays s @ [json_copy_edges newEdges],
             history_r := take (hi + 1) (history_r s) @
                            [(length (node_arrays s), length (edge_arrays s))],
             historyIndex_r := historyIndex_r s + 1\<rparr>)"

definition ref_current_callback :: "ref_index_app \<Rightarrow> closure" where
  "ref_current_callback s =
     \<lparr>closure_historyIndex = historyIndex_r s, closure_edges = edge_arrays s ! edges_ref s\<rparr>"

definition ref_App_setNodes :: "(node list \<Rightarrow> node list) \<Rightarrow> ref_index_app \<Rightarrow> ref_index_app" where
  "ref_App_setNodes f s =
     (let updatedNodes = length (node_arrays s);
          s1 = s\<lparr>node_arrays := node_arrays s @ [f (node_arrays s ! nodes_ref s)]\<rparr>;
          s2 = ref_pushHistory (historyIndex_r s) (node_arrays s1 ! updatedNodes)
                 (edge_arrays s1 ! edges_ref s1) s1
      in s2\<lparr>nodes_ref := updatedNodes\<rparr>)"

definition ref_App_setEdges :: "(edge list \<Rightarrow> edge list) \<Rightarrow> ref_index_app \<Rightarrow> ref_index_app" where
  "ref_App_setEdges g s =
     (let updatedEdges = length (edge_arrays s);
          s1 = s\<lparr>edge_arrays := edge_arrays s @ [g (edge_arrays s ! edges_ref s)]\<rparr>;
          s2 = ref_pushHistory (historyIndex_r s) (node_arrays s1 ! nodes_ref s1)
                 (edge_arrays s1 ! updatedEdges) s1
      in s2\<lparr>edges_ref := updatedEdges\<rparr>)"

definition ref_handleLabelChange ::
  "closure \<Rightarrow> string \<Rightarrow> string \<Rightarrow> ref_index_app \<Rightarrow> ref_index_app" where
  "ref_handleLabelChange c i v s =
     (let updatedNodes = length (node_arrays s);
          s1 = s\<lparr>node_arrays := node_arrays s @
                 [map (\<lambda>n. if node_id n = i then n\<lparr>label := v, onChangeLabel := Some c\<rparr> else n)
                    (node_arrays s ! nodes_ref s)]\<rparr>;
          s2 = ref_pushHistory (closure_historyIndex c) (node_arrays s1 ! updatedNodes)
                 (closure_edges c) s1
      in s2\<lparr>nodes_ref := updatedNodes\<rparr>)"

fun ref_index_mutate ::
  "('nc \<Rightarrow> node list \<Rightarrow> node list) \<Rightarrow> ('ec \<Rightarrow> edge list \<Rightarrow> edge list) \<Rightarrow>
   (edge \<Rightarrow> edge list \<Rightarrow> edge list) \<Rightarrow>
   ('nc, 'ec) index_mutation \<Rightarrow> ref_index_app \<Rightarrow> ref_index_app" where
  "ref_index_mutate an ae ad (INodesChange ch) s = ref_App_setNodes (an ch) s"
| "ref_index_mutate an ae ad (IEdgesChange ch) s = ref_App_setEdges (ae ch) s"
| "ref_index_mutate an ae ad (IConnect now c) s = ref_App_setEdges (ad (App_newEdge now c)) s"
| "ref_index_mutate an ae ad (IDrop ty pos now) s =
     ref_App_setNodes
       (\<lambda>nds. nds @ [\<lparr>node_id = ''node_'' @ now, node_type = ty, position = pos,
                       label = [], shape = None,
                       onChangeLabel = Some (ref_current_callback s)\<rparr>]) s"
| "ref_index_mutate an ae ad (ILabelChange c i v) s = ref_handleLabelChange c i v s"

definition ref_undo :: "ref_index_app \<Rightarrow> ref_index_app" where
  "ref_undo s =
     (if 0 < historyIndex_r s then
        (let newIndex = historyIndex_r s - 1 in
         if newIndex < length (history_r s) then
           (let state = history_r s ! newIndex in
            s\<lparr>skipHistoryRef_r := True,
              node_arrays := node_arrays s @
                [map (restore_callback (ref_current_callback s)) (node_arrays s ! fst state)],
              nodes_ref := length (node_arrays s),
              edges_ref := snd state,
              historyIndex_r := newIndex\<rparr>)
         else s\<lparr>skipHistoryRef_r := True\<rparr>)
      else s)"

definition ref_redo :: "ref_index_app \<Rightarrow> ref_index_app" where
  "ref_redo s =
     (if historyIndex_r s + 1 < length (history_r s) then
        (let newIndex = historyIndex_r s + 1;
             state = history_r s ! newIndex in
         s\<lparr>skipHistoryRef_r := True,
           node_arrays := node_arrays s @
             [map (restore_callback (ref_current_callback s)) (node_arrays s ! fst state)],
           nodes_ref := length (node_arrays s),
           edges_ref := snd state,
           historyIndex_r := newIndex\<rparr>)
      else s)"

fun ref_index_run ::
  "('nc \<Rightarrow> node list \<Rightarrow> node list) \<Rightarrow> ('ec \<Rightarrow> edge list \<Rightarrow> edge list) \<Rightarrow>
   (edge \<Rightarrow> edge list \<Rightarrow> edge list) \<Rightarrow>
   ('nc, 'ec) index_mutation list \<Rightarrow> ref_index_app \<Rightarrow> ref_index_app" where
  "ref_index_run an ae ad [] s = s"
| "ref_index_run an ae ad (m # ms) s = ref_index_run an ae ad ms (ref_index_mutate an ae ad m s)"

definition index_view :: "ref_index_app \<Rightarrow> index_app" where
  "index_view s =
     \<lparr>nodes = node_arrays s ! nodes_ref s, edges = edge_arrays s ! edges_ref s,
      history = map (deref (node_arrays s) (edge_arrays s)) (history_r s),
      historyIndex = historyIndex_r s, skipHistoryRef = skipHistoryRef_r s\<rparr>"

definition ref_index_wf :: "ref_index_app \<Rightarrow> bool" where
  "ref_index_wf s \<longleftrightarrow>
     allocated (node_arrays s) (edge_arrays s) (nodes_ref s, edges_ref s) \<and>
     list_all (allocated (node_arrays s) (edge_arrays s)) (history_r s)"

section \<open>Example diagrams\<close>

text \<open>
  The scenario of the specification: two nodes are added and connected.
  \<open>keep\<close>, \<open>append_edge\<close>, \<open>remove_nodes\<close> and \<open>remove_edges\<close> stand in for the
  library functions where a concrete run needs them.
\<close>

definition keep :: "unit \<Rightarrow> 'a list \<Rightarrow> 'a list" where
  "keep ch xs = xs"

definition append_edge :: "edge \<Rightarrow> edge list \<Rightarrow> edge list" where
  "append_edge e es = es @ [e]"

definition remove_nodes :: "string list \<Rightarrow> node list \<Rightarrow> node list" where
  "remove_nodes ids ns = filter (\<lambda>n. node_id n \<notin> set ids) ns"

definition remove_edges :: "string list \<Rightarrow> edge list \<Rightarrow> edge list" where
  "remove_edges ids es = filter (\<lambda>e. edge_id e \<notin> set ids) es"

definition scenario_connection :: "string \<Rightarrow> string \<Rightarrow> connection" where
  "scenario_connection a b =
     \<lparr>source = a, sourceHandle = Some ''right'', target = b, targetHandle = Some ''left''\<rparr>"

definition stack_scenario :: "(unit, unit) stack_mutation list" where
  "stack_scenario =
     [CreateNode ''n1'' (10, 10) rectangle,
      CreateNode ''n2'' (100, 10) circle,
      Connect ''e1'' (scenario_connection ''n1'' ''n2'')]"

definition index_scenario :: "(unit, unit) index_mutation list" where
  "index_scenario =
     [IDrop ''rectangleNode'' (10, 10) ''1'',
      IDrop ''circleNode'' (100, 10) ''2'',
      IConnect ''3'' (scenario_connection ''node_1'' ''node_2'')]"

definition stack_example :: stack_app where
  "stack_example = stack_run keep keep stack_scenario stack_init"

definition index_example :: index_app where
  "index_example = index_run keep keep append_edge index_scenario index_init"

text \<open>
  The first node of the scenario in the indexed editor, and the state in
  which the connecting step has been undone and the timer has fired.
\<close>

definition blur_example :: node where
  "blur_example = nodes index_example ! 0"

definition undone_example :: index_app where
  "undone_example = timeout (undo index_example)"

definition ref_stack_example :: ref_stack_app where
  "ref_stack_example = ref_stack_run keep keep stack_scenario ref_stack_init"

definition ref_index_example :: ref_index_app where
  "ref_index_example = ref_index_run keep keep append_edge index_scenario ref_index_init"

section \<open>Invariants\<close>

text \<open>
  \<open>recorded\<close>: the indexed editor is recording, the current entry is the last
  one and it is the copy of the live state. \<open>separate\<close>: the two-stack editor
  over the heap is well formed and shares no array.
\<close>

definition recorded :: "index_app \<Rightarrow> bool" where
  "recorded s \<longleftrightarrow> \<not> skipHistoryRef s \<and> historyIndex s + 1 = length (history s) \<and>
     history s ! historyIndex s = \<lparr>nodes = json_copy_nodes (nodes s), edges = edges s\<rparr>"

definition separate :: "ref_stack_app \<Rightarrow> bool" where
  "separate s \<longleftrightarrow> ref_stack_wf s \<and> unshared s"

section \<open>Evaluation of the examples\<close>

lemmas stack_defs = stack_example_def stack_scenario_def scenario_connection_def keep_def stack_init_def
  createNode_def onConnect_def onNodeLabelChange_def onNodesChange_def onEdgesChange_def
  pushToHistory_def handleUndo_def handleRedo_def snapshot_def stack_newEdge_def
  json_copy_nodes_def json_copy_node_def json_copy_edges_def Let_def

lemmas index_defs = index_example_def undone_example_def index_scenario_def
  scenario_connection_def keep_def append_edge_def
  index_init_def onDrop_def App_onConnect_def handleLabelChange_def App_onNodesChange_def
  App_onEdgesChange_def pushHistory_def current_callback_def undo_def redo_def timeout_def
  App_newEdge_def restore_callback_def json_copy_nodes_def json_copy_node_def
  json_copy_edges_def Let_def

lemmas blur_defs = blur_commit_def handleBlur_def blur_example_def undo_throws_def trim_def
  is_whitespace_def

section \<open>Undo and redo at the boundaries\<close>

lemma handleUndo_empty: "historyRef s = [] \<Longrightarrow> handleUndo s = s"
  by (simp add: handleUndo_def)

lemma handleRedo_empty: "redoRef s = [] \<Longrightarrow> handleRedo s = s"
  by (simp add: handleRedo_def)

lemma undo_at_start: "historyIndex s = 0 \<Longrightarrow> undo s = s"
  by (simp add: undo_def)

lemma redo_at_end: "length (history s) \<le> historyIndex s + 1 \<Longrightarrow> redo s = s"
  by (simp add: redo_def)

text \<open>
  C6: undo with nothing to undo and redo with nothing to redo change nothing:
  neither the live state nor the history. In the two-stack editor the stack
  in question is empty; in the indexed editor the current entry is the first
  one (nothing before it), respectively the last one (nothing after it).
\<close>

theorem undo_redo_noop_at_boundaries:
  "(historyRef s = [] \<longrightarrow> handleUndo s = s) \<and>
   (redoRef s = [] \<longrightarrow> handleRedo s = s) \<and>
   (historyIndex t = 0 \<longrightarrow> undo t = t) \<and>
   (length (history t) \<le> historyIndex t + 1 \<longrightarrow> redo t = t)"
  by (simp add: handleUndo_empty handleRedo_empty undo_at_start redo_at_end)

theorem undo_redo_noop_at_boundaries_witness:
  "historyRef (handleUndo (createNode ''n1'' (10, 10) rectangle stack_init)) = [] \<and>
   handleUndo (handleUndo (createNode ''n1'' (10, 10) rectangle stack_init))
     = handleUndo (createNode ''n1'' (10, 10) rectangle stack_init) \<and>
   redoRef stack_example = [] \<and>
   handleRedo stack_example = stack_example \<and>
   historyIndex (undo (onDrop (Some ''rectangleNode'') (Some (10, 10)) ''1'' index_init)) = 0 \<and>
   undo (undo (onDrop (Some ''rectangleNode'') (Some (10, 10)) ''1'' index_init))
     = undo (onDrop (Some ''rectangleNode'') (Some (10, 10)) ''1'' index_init) \<and>
   length (history index_example) \<le> historyIndex index_example + 1 \<and>
   redo index_example = index_example"
proof -
  have a: "historyRef (handleUndo (createNode ''n1'' (10, 10) rectangle stack_init)) = []"
    by (simp add: stack_defs)
  have b: "redoRef stack_example = []"
    by (simp add: stack_defs)
  have c: "historyIndex (undo (onDrop (Some ''rectangleNode'') (Some (10, 10)) ''1'' index_init)) = 0"
    by (simp add: index_defs)
  have d: "length (history index_example) \<le> historyIndex index_example + 1"
    by (simp add: index_defs)
  from a b c d
    undo_redo_noop_at_boundaries
      [of "handleUndo (createNode ''n1'' (10, 10) rectangle stack_init)"
          "undo (onDrop (Some ''rectangleNode'') (Some (10, 10)) ''1'' index_init)"]
    undo_redo_noop_at_boundaries [of stack_example index_example]
  show ?thesis by blast
qed

section \<open>The undo/redo round trip\<close>

lemma restore_json_copy [simp]: "restore_callback c (json_copy_node n) = restore_callback c n"
  by (simp add: restore_callback_def json_copy_node_def)

lemma map_restore_json_copy [simp]:
  "map (restore_callback c) (json_copy_nodes ns) = map (restore_callback c) ns"
  by (simp add: json_copy_nodes_def)

lemma json_copy_restore [simp]: "json_copy_node (restore_callback c n) = json_copy_node n"
  by (simp add: restore_callback_def json_copy_node_def)

lemma json_copy_map_restore [simp]:
  "json_copy_nodes (map (restore_callback c) ns) = json_copy_nodes ns"
  by (simp add: json_copy_nodes_def)

lemma json_copy_idem [simp]: "json_copy_nodes (json_copy_nodes ns) = json_copy_nodes ns"
  by (simp add: json_copy_nodes_def json_copy_node_def)

lemma snapshot_store [simp]: "snapshot (x::store) = x"
  by (simp add: snapshot_def)

lemma handleUndo_nonempty:
  "historyRef s = h @ [e] \<Longrightarrow>
   handleUndo s = s\<lparr>historyRef := h, redoRef := redoRef s @ [snapshot s],
                    nodes := nodes e, edges := edges e\<rparr>"
  by (simp add: handleUndo_def)

lemma handleRedo_nonempty:
  "redoRef s = r @ [e] \<Longrightarrow>
   handleRedo s = s\<lparr>redoRef := r, historyRef := historyRef s @ [snapshot s],
                    nodes := nodes e, edges := edges e\<rparr>"
  by (simp add: handleRedo_def)

lemma undo_then_redo:
  assumes "historyRef s \<noteq> []"
  shows "handleRedo (handleUndo s) = s"
proof -
  from assms obtain h e where he: "historyRef s = h @ [e]"
    by (metis rev_exhaust)
  show ?thesis
    by (simp add: handleUndo_nonempty[OF he] handleRedo_def snapshot_def he)
qed

lemma length_historyRef_handleUndo:
  "length (historyRef (handleUndo s)) = length (historyRef s) - 1"
  by (cases "historyRef s" rule: rev_cases) (simp_all add: handleUndo_def)

lemma undos_then_redos:
  "n \<le> length (historyRef s) \<Longrightarrow> (handleRedo ^^ n) ((handleUndo ^^ n) s) = s"
proof (induction n arbitrary: s)
  case 0
  then show ?case by simp
next
  case (Suc n)
  have ne: "historyRef s \<noteq> []" using Suc.prems by auto
  have le: "n \<le> length (historyRef (handleUndo s))"
    using Suc.prems by (simp add: length_historyRef_handleUndo)
  have "(handleRedo ^^ Suc n) ((handleUndo ^^ Suc n) s)
        = handleRedo ((handleRedo ^^ n) ((handleUndo ^^ n) (handleUndo s)))"
    by (simp add: funpow_swap1)
  also have "\<dots> = handleRedo (handleUndo s)"
    by (simp add: Suc.IH[OF le])
  also have "\<dots> = s" by (rule undo_then_redo[OF ne])
  finally show ?case .
qed

lemma stack_mutate_history:
  "historyRef (stack_mutate an ae m s)
     = historyRef s @ [\<lparr>nodes = json_copy_nodes (nodes s), edges = edges s\<rparr>]"
  by (cases m) (simp_all add: onNodesChange_def onEdgesChange_def onConnect_def createNode_def
      onNodeLabelChange_def Let_def pushToHistory_def json_copy_edges_def)

lemma stack_mutate_redo: "redoRef (stack_mutate an ae m s) = []"
  by (cases m) (simp_all add: onNodesChange_def onEdgesChange_def onConnect_def createNode_def
      onNodeLabelChange_def Let_def pushToHistory_def)

text \<open>The handlers of the two-stack editor are the first-handler case of the general ones.\<close>

lemma stack_mutate_first:
  "stack_mutate an ae m s = stack_mutate_in (snapshot s) an ae m s"
  by (cases m) (simp_all add: onNodesChange_def onEdgesChange_def onConnect_def createNode_def
      onNodeLabelChange_def Let_def pushToHistory_def pushToHistory_in_def snapshot_def)

lemma length_historyRef_run:
  "length (historyRef (stack_run an ae ms s)) = length (historyRef s) + length ms"
  by (induction ms arbitrary: s) (simp_all add: stack_mutate_history)

lemma stack_round_trip:
  "(handleRedo ^^ length ms) ((handleUndo ^^ length ms) (stack_run an ae ms stack_init))
   = stack_run an ae ms stack_init"
  by (rule undos_then_redos) (simp add: length_historyRef_run)

text \<open>
  In the indexed editor, a step of undo or redo that finds its entry leaves
  the history as it is and makes the entry the live state, up to the label
  functions stored in the nodes.
\<close>

lemma undo_step:
  assumes "0 < historyIndex s" and "historyIndex s \<le> length (history s)"
  shows "history (undo s) = history s"
    and "historyIndex (undo s) = historyIndex s - 1"
    and "nodes (undo s)
           = map (restore_callback (current_callback s)) (nodes (history s ! (historyIndex s - 1)))"
    and "edges (undo s) = edges (history s ! (historyIndex s - 1))"
proof -
  from assms have "historyIndex s - 1 < length (history s)" by arith
  with assms(1) show "history (undo s) = history s"
    and "historyIndex (undo s) = historyIndex s - 1"
    and "nodes (undo s)
           = map (restore_callback (current_callback s)) (nodes (history s ! (historyIndex s - 1)))"
    and "edges (undo s) = edges (history s ! (historyIndex s - 1))"
    by (simp_all add: undo_def Let_def)
qed

lemma redo_step:
  assumes "historyIndex s + 1 < length (history s)"
  shows "history (redo s) = history s"
    and "historyIndex (redo s) = historyIndex s + 1"
    and "nodes (redo s)
           = map (restore_callback (current_callback s)) (nodes (history s ! (historyIndex s + 1)))"
    and "edges (redo s) = edges (history s ! (historyIndex s + 1))"
  using assms by (simp_all add: redo_def Let_def)

lemma undo_pow:
  "0 < k \<Longrightarrow> k \<le> historyIndex s \<Longrightarrow> historyIndex s \<le> length (history s) \<Longrightarrow>
   history ((undo ^^ k) s) = history s \<and>
   historyIndex ((undo ^^ k) s) = historyIndex s - k \<and>
   json_copy_nodes (nodes ((undo ^^ k) s))
     = json_copy_nodes (nodes (history s ! (historyIndex s - k))) \<and>
   edges ((undo ^^ k) s) = edges (history s ! (historyIndex s - k))"
proof (induction k)
  case 0
  then show ?case by simp
next
  case (Suc k)
  show ?case
  proof (cases "k = 0")
    case True
    then show ?thesis using Suc.prems undo_step[of s] by simp
  next
    case False
    let ?u = "(undo ^^ k) s"
    from False Suc have ih: "history ?u = history s" "historyIndex ?u = historyIndex s - k"
      by simp_all
    have a: "0 < historyIndex ?u" "historyIndex ?u \<le> length (history ?u)"
      using Suc.prems ih by simp_all
    have "historyIndex s - k - 1 = historyIndex s - Suc k" by simp
    with undo_step[OF a] ih show ?thesis by simp
  qed
qed

lemma redo_pow:
  "0 < k \<Longrightarrow> historyIndex s + k < length (history s) \<Longrightarrow>
   history ((redo ^^ k) s) = history s \<and>
   historyIndex ((redo ^^ k) s) = historyIndex s + k \<and>
   json_copy_nodes (nodes ((redo ^^ k) s))
     = json_copy_nodes (nodes (history s ! (historyIndex s + k))) \<and>
   edges ((redo ^^ k) s) = edges (history s ! (historyIndex s + k))"
proof (induction k)
  case 0
  then show ?case by simp
next
  case (Suc k)
  show ?case
  proof (cases "k = 0")
    case True
    then show ?thesis using Suc.prems redo_step[of s] by simp
  next
    case False
    let ?u = "(redo ^^ k) s"
    from False Suc have ih: "history ?u = history s" "historyIndex ?u = historyIndex s + k"
      by simp_all
    have a: "historyIndex ?u + 1 < length (history ?u)"
      using Suc.prems ih by simp
    from redo_step[OF a] ih show ?thesis by simp
  qed
qed

text \<open>
  What one of the four handlers of the current render records while
  recording is not suspended.
\<close>

lemma index_mutate_history:
  "\<not> skipHistoryRef t \<Longrightarrow> \<not> is_relabel m \<Longrightarrow>
   history (index_mutate an ae ad m t)
     = take (historyIndex t + 1) (history t) @
       [\<lparr>nodes = json_copy_nodes (nodes (index_mutate an ae ad m t)),
         edges = edges (index_mutate an ae ad m t)\<rparr>] \<and>
   historyIndex (index_mutate an ae ad m t) = historyIndex t + 1 \<and>
   \<not> skipHistoryRef (index_mutate an ae ad m t)"
  by (cases m)
     (simp_all add: App_onNodesChange_def App_onEdgesChange_def App_onConnect_def
       onDrop_def Let_def pushHistory_def json_copy_edges_def)

lemma recorded_mutate:
  assumes "recorded t" and "\<not> is_relabel m"
  shows "recorded (index_mutate an ae ad m t)"
    and "historyIndex (index_mutate an ae ad m t) = Suc (historyIndex t)"
  using assms index_mutate_history[of t m an ae ad]
  by (auto simp: recorded_def nth_append)

lemma recorded_run:
  "recorded t \<Longrightarrow> list_all (\<lambda>m. \<not> is_relabel m) ms \<Longrightarrow>
   recorded (index_run an ae ad ms t) \<and>
   historyIndex (index_run an ae ad ms t) = historyIndex t + length ms"
proof (induction ms arbitrary: t)
  case Nil
  then show ?case by simp
next
  case (Cons m ms)
  from Cons.prems have m: "\<not> is_relabel m" and ms: "list_all (\<lambda>m. \<not> is_relabel m) ms"
    by simp_all
  from recorded_mutate[OF Cons.prems(1) m, of an ae ad]
    Cons.IH[of "index_mutate an ae ad m t", OF _ ms]
  show ?case by simp
qed

lemma recorded_init: "recorded index_init"
  by (simp add: recorded_def index_init_def json_copy_nodes_def)

lemma index_undo_redo:
  assumes "0 < historyIndex t" and "historyIndex t < length (history t)"
    and "history t ! historyIndex t = \<lparr>nodes = json_copy_nodes (nodes t), edges = edges t\<rparr>"
  shows "nodes (redo (undo t)) = map (restore_callback (current_callback (undo t))) (nodes t)"
    and "json_copy_nodes (nodes (redo (undo t))) = json_copy_nodes (nodes t)"
    and "edges (redo (undo t)) = edges t"
proof -
  have le: "historyIndex t \<le> length (history t)" using assms(2) by simp
  note u = undo_step[OF assms(1) le]
  have r: "historyIndex (undo t) + 1 < length (history (undo t))"
    using assms(1,2) u by simp
  have i: "historyIndex (undo t) + 1 = historyIndex t" using assms(1) u by simp
  show n: "nodes (redo (undo t)) = map (restore_callback (current_callback (undo t))) (nodes t)"
    using redo_step(3)[OF r] u(1) i assms(3) by simp
  show "json_copy_nodes (nodes (redo (undo t))) = json_copy_nodes (nodes t)"
    by (simp add: n)
  show "edges (redo (undo t)) = edges t"
    using redo_step(4)[OF r] u(1) i assms(3) by simp
qed

lemma index_round_trip:
  assumes u: "u = index_run an ae ad ms index_init"
    and ms: "list_all (\<lambda>m. \<not> is_relabel m) ms"
  shows "json_copy_nodes (nodes ((redo ^^ length ms) ((undo ^^ length ms) u)))
           = json_copy_nodes (nodes u) \<and>
         edges ((redo ^^ length ms) ((undo ^^ length ms) u)) = edges u"
proof (cases "length ms = 0")
  case True
  then show ?thesis by (simp add: u index_init_def)
next
  case False
  then have k: "0 < length ms" by simp
  let ?v = "(undo ^^ length ms) u"
  have r: "recorded u" and i: "historyIndex u = length ms"
    using recorded_run[OF recorded_init ms, of an ae ad] by (simp_all add: u index_init_def)
  from r have len: "historyIndex u + 1 = length (history u)"
    and cur: "history u ! historyIndex u = \<lparr>nodes = json_copy_nodes (nodes u), edges = edges u\<rparr>"
    by (simp_all add: recorded_def)
  have v: "history ?v = history u" "historyIndex ?v = 0"
    using undo_pow[OF k, of u] i len by simp_all
  have "historyIndex ?v + length ms < length (history ?v)"
    using v i len by simp
  from redo_pow[OF k this] v i cur show ?thesis by simp
qed

text \<open>
  C1, as the code has it. In the two-stack editor an undo followed by a redo
  gives back the whole state (live nodes and edges and both stacks) whenever
  there is something to undo, and after any run of \<open>n\<close> mutations from the
  empty diagram \<open>n\<close> undos followed by \<open>n\<close> redos give back the state after the
  run. In the indexed editor an undo followed by a redo gives back the live
  edges and the live nodes, each node with the label function of the render
  the redo ran in, whenever there is an entry to step back to and the
  current entry is the copy of the live state; and \<open>n\<close> undos followed by \<open>n\<close>
  redos do so after any run, from the empty diagram, of \<open>n\<close> node changes,
  edge changes, connections and drops. What a relabel through a stored label
  function does to the history of the indexed editor is left aside here.
\<close>

theorem undo_redo_round_trip:
  "(historyRef s \<noteq> [] \<longrightarrow> handleRedo (handleUndo s) = s) \<and>
   (handleRedo ^^ length ms) ((handleUndo ^^ length ms) (stack_run an ae ms stack_init))
     = stack_run an ae ms stack_init \<and>
   (0 < historyIndex t \<and> historyIndex t < length (history t) \<and>
    history t ! historyIndex t = \<lparr>nodes = json_copy_nodes (nodes t), edges = edges t\<rparr> \<longrightarrow>
      nodes (redo (undo t)) = map (restore_callback (current_callback (undo t))) (nodes t) \<and>
      json_copy_nodes (nodes (redo (undo t))) = json_copy_nodes (nodes t) \<and>
      edges (redo (undo t)) = edges t) \<and>
   (list_all (\<lambda>m. \<not> is_relabel m) ims \<longrightarrow>
      json_copy_nodes
          (nodes ((redo ^^ length ims) ((undo ^^ length ims) (index_run ian iae ad ims index_init))))
        = json_copy_nodes (nodes (index_run ian iae ad ims index_init)) \<and>
      edges ((redo ^^ length ims) ((undo ^^ length ims) (index_run ian iae ad ims index_init)))
        = edges (index_run ian iae ad ims index_init))"
  using undo_then_redo[of s] stack_round_trip[of ms an ae] index_undo_redo[of t]
    index_round_trip[OF refl, of ims ian iae ad]
  by blast

theorem undo_redo_round_trip_witness:
  "historyRef stack_example \<noteq> [] \<and>
   handleRedo (handleUndo stack_example) = stack_example \<and>
   (handleRedo ^^ 3) ((handleUndo ^^ 3) stack_example) = stack_example \<and>
   0 < historyIndex index_example \<and>
   historyIndex index_example < length (history index_example) \<and>
   history index_example ! historyIndex index_example
     = \<lparr>nodes = json_copy_nodes (nodes index_example), edges = edges index_example\<rparr> \<and>
   list_all (\<lambda>m. \<not> is_relabel m) index_scenario \<and>
   json_copy_nodes (nodes (redo (undo index_example))) = json_copy_nodes (nodes index_example) \<and>
   edges (redo (undo index_example)) = edges index_example \<and>
   json_copy_nodes (nodes ((redo ^^ 3) ((undo ^^ 3) index_example)))
     = json_copy_nodes (nodes index_example) \<and>
   edges ((redo ^^ 3) ((undo ^^ 3) index_example)) = edges index_example"
proof -
  have n: "length stack_scenario = 3" "length index_scenario = 3"
    by (simp_all add: stack_scenario_def index_scenario_def)
  have a: "historyRef stack_example \<noteq> []"
    by (simp add: stack_defs)
  have b: "0 < historyIndex index_example \<and>
     historyIndex index_example < length (history index_example) \<and>
     history index_example ! historyIndex index_example
       = \<lparr>nodes = json_copy_nodes (nodes index_example), edges = edges index_example\<rparr>"
    by (simp add: index_defs)
  have c: "list_all (\<lambda>m. \<not> is_relabel m) index_scenario"
    by (simp add: index_scenario_def)
  note th = undo_redo_round_trip
    [of stack_example stack_scenario keep keep index_example index_scenario keep keep
        append_edge]
  from th a have d: "handleRedo (handleUndo stack_example) = stack_example" by blast
  from th n have e: "(handleRedo ^^ 3) ((handleUndo ^^ 3) stack_example) = stack_example"
    by (simp add: stack_example_def)
  from th b have f: "json_copy_nodes (nodes (redo (undo index_example)))
       = json_copy_nodes (nodes index_example) \<and>
     edges (redo (undo index_example)) = edges index_example"
    by blast
  from th c n have g: "json_copy_nodes (nodes ((redo ^^ 3) ((undo ^^ 3) index_example)))
       = json_copy_nodes (nodes index_example) \<and>
     edges ((redo ^^ 3) ((undo ^^ 3) index_example)) = edges index_example"
    by (simp add: index_example_def)
  from a b c d e f g show ?thesis by blast
qed

text \<open>
  With nothing to undo the law fails: after one node is created and undone
  in the two-stack editor, a further undo does nothing and the redo that
  follows brings the node back. In the indexed editor the law fails where
  the current entry is not the copy of the live state: after the scenario,
  an undo and the timer, the first node is relabelled through the function
  stored in it, which cuts the history at the index that function captured;
  an undo and a redo then bring back the unlabelled nodes and the undone
  edge. And after the scenario and such a relabel, \<open>historyIndex\<close> lies beyond
  the history and undo is left by a TypeError.
\<close>

theorem undo_redo_round_trip_counterexample:
  "nodes (handleRedo (handleUndo (handleUndo (createNode ''n1'' (10, 10) rectangle stack_init))))
     \<noteq> nodes (handleUndo (createNode ''n1'' (10, 10) rectangle stack_init)) \<and>
   \<not> skipHistoryRef undone_example \<and>
   0 < historyIndex (blur_commit (nodes undone_example ! 0) ''Start'' undone_example) \<and>
   historyIndex (blur_commit (nodes undone_example ! 0) ''Start'' undone_example)
     < length (history (blur_commit (nodes undone_example ! 0) ''Start'' undone_example)) \<and>
   json_copy_nodes
       (nodes (redo (undo (blur_commit (nodes undone_example ! 0) ''Start'' undone_example))))
     \<noteq> json_copy_nodes (nodes (blur_commit (nodes undone_example ! 0) ''Start'' undone_example)) \<and>
   edges (redo (undo (blur_commit (nodes undone_example ! 0) ''Start'' undone_example)))
     \<noteq> edges (blur_commit (nodes undone_example ! 0) ''Start'' undone_example) \<and>
   undo_throws (blur_commit (nodes index_example ! 0) ''Start'' index_example)"
  by (simp add: stack_defs index_defs blur_defs)

section \<open>A new edit clears the redo entries\<close>

lemma stack_mutate_in_redo: "redoRef (stack_mutate_in r an ae m s) = []"
  by (cases m) (simp_all add: Let_def pushToHistory_in_def)

lemma index_mutate_redo_noop:
  assumes "\<not> skipHistoryRef t" and "\<not> is_relabel m"
  shows "drop (historyIndex (index_mutate an ae ad m t) + 1) (history (index_mutate an ae ad m t)) = []"
    and "redo (index_mutate an ae ad m t) = index_mutate an ae ad m t"
proof -
  let ?t = "index_mutate an ae ad m t"
  from index_mutate_history[OF assms, of an ae ad]
  have h: "history ?t = take (historyIndex t + 1) (history t) @
       [\<lparr>nodes = json_copy_nodes (nodes ?t), edges = edges ?t\<rparr>]"
    and i: "historyIndex ?t = historyIndex t + 1" by simp_all
  have l: "length (history ?t) \<le> historyIndex ?t + 1"
    by (simp add: h i)
  show "drop (historyIndex ?t + 1) (history ?t) = []" using l by simp
  show "redo ?t = ?t" using l by (rule redo_at_end)
qed

text \<open>
  C2, as the code has it. After any mutation of the two-stack editor the redo
  stack is empty and a redo changes nothing, also where the handler is not
  the first one since its render. After a node change, an edge change, a
  connection or a drop in the indexed editor, made while recording is not
  suspended, no entry lies beyond the current one and a redo changes
  nothing. What a relabel through a stored label function does to the
  history of the indexed editor is left aside here.
\<close>

theorem redo_cleared_on_new_edit:
  "redoRef (stack_mutate an ae m s) = [] \<and>
   handleRedo (stack_mutate an ae m s) = stack_mutate an ae m s \<and>
   redoRef (stack_mutate_in r an ae m s) = [] \<and>
   handleRedo (stack_mutate_in r an ae m s) = stack_mutate_in r an ae m s \<and>
   (\<not> skipHistoryRef t \<and> \<not> is_relabel im \<longrightarrow>
      drop (historyIndex (index_mutate ian iae ad im t) + 1)
           (history (index_mutate ian iae ad im t)) = [] \<and>
      redo (index_mutate ian iae ad im t) = index_mutate ian iae ad im t)"
  using index_mutate_redo_noop[of t im ian iae ad]
  by (simp add: stack_mutate_redo stack_mutate_in_redo handleRedo_empty)

theorem redo_cleared_on_new_edit_witness:
  "redoRef (handleUndo stack_example) \<noteq> [] \<and>
   redoRef (stack_mutate keep keep (LabelChange ''n1'' ''Start'') (handleUndo stack_example)) = [] \<and>
   handleRedo (stack_mutate keep keep (LabelChange ''n1'' ''Start'') (handleUndo stack_example))
     = stack_mutate keep keep (LabelChange ''n1'' ''Start'') (handleUndo stack_example) \<and>
   \<not> skipHistoryRef undone_example \<and>
   \<not> is_relabel (IDrop ''diamondNode'' (50, 120) ''4'' :: (unit, unit) index_mutation) \<and>
   drop (historyIndex undone_example + 1) (history undone_example) \<noteq> [] \<and>
   drop (historyIndex (index_mutate keep keep append_edge (IDrop ''diamondNode'' (50, 120) ''4'')
                         undone_example) + 1)
        (history (index_mutate keep keep append_edge (IDrop ''diamondNode'' (50, 120) ''4'')
                         undone_example)) = [] \<and>
   redo (index_mutate keep keep append_edge (IDrop ''diamondNode'' (50, 120) ''4'') undone_example)
     = index_mutate keep keep append_edge (IDrop ''diamondNode'' (50, 120) ''4'') undone_example"
proof -
  have a: "redoRef (handleUndo stack_example) \<noteq> []"
    by (simp add: stack_defs)
  have b: "\<not> skipHistoryRef undone_example"
    by (simp add: undone_example_def timeout_def)
  have c: "drop (historyIndex undone_example + 1) (history undone_example) \<noteq> []"
    by (simp add: index_defs)
  have d: "\<not> is_relabel (IDrop ''diamondNode'' (50, 120) ''4'' :: (unit, unit) index_mutation)"
    by simp
  from redo_cleared_on_new_edit
    [of keep keep "LabelChange ''n1'' ''Start''" "handleUndo stack_example" _
        undone_example "IDrop ''diamondNode'' (50, 120) ''4''" keep keep append_edge]
    a b c d
  show ?thesis by blast
qed

text \<open>
  While \<open>skipHistoryRef\<close> is set (after an undo, before the timer has fired)
  \<open>pushHistory\<close> returns at once: the removal of a node then leaves the
  entries beyond the current one in place, and a redo replaces the live
  state. And once the timer has fired, a relabel of the first node through
  the function stored in it cuts the history at the index that function
  captured, which lies beyond the current one: an entry is left beyond the
  new current one, and a redo replaces the live state.
\<close>

theorem redo_cleared_on_new_edit_counterexample:
  "skipHistoryRef (undo index_example) \<and>
   drop (historyIndex (index_mutate remove_nodes remove_edges append_edge
                         (INodesChange [''node_2'']) (undo index_example)) + 1)
        (history (index_mutate remove_nodes remove_edges append_edge
                         (INodesChange [''node_2'']) (undo index_example))) \<noteq> [] \<and>
   redo (index_mutate remove_nodes remove_edges append_edge
           (INodesChange [''node_2'']) (undo index_example))
     \<noteq> index_mutate remove_nodes remove_edges append_edge
           (INodesChange [''node_2'']) (undo index_example) \<and>
   \<not> skipHistoryRef undone_example \<and>
   drop (historyIndex (blur_commit (nodes undone_example ! 0) ''Start'' undone_example) + 1)
        (history (blur_commit (nodes undone_example ! 0) ''Start'' undone_example)) \<noteq> [] \<and>
   redo (blur_commit (nodes undone_example ! 0) ''Start'' undone_example)
     \<noteq> blur_commit (nodes undone_example ! 0) ''Start'' undone_example"
  by (simp add: index_defs blur_defs remove_nodes_def remove_edges_def)

section \<open>Connecting\<close>

text \<open>
  C3, as the code has it. Neither \<open>onConnect\<close> looks the source or the target
  up among the nodes, and neither can fail. The two-stack editor appends one
  new edge with the given end points and records the previous store on the
  undo stack; the indexed editor hands the new edge to \<open>addEdge\<close> and adopts
  what it returns. The nodes are unchanged in both.
\<close>

theorem connect_never_rejects:
  "nodes (onConnect uid c s) = nodes s \<and>
   edges (onConnect uid c s) = edges s @ [stack_newEdge uid c] \<and>
   source (stack_newEdge uid c) = source c \<and>
   target (stack_newEdge uid c) = target c \<and>
   historyRef (onConnect uid c s)
     = historyRef s @ [\<lparr>nodes = json_copy_nodes (nodes s), edges = edges s\<rparr>] \<and>
   nodes (App_onConnect addEdge now c t) = nodes t \<and>
   edges (App_onConnect addEdge now c t) = addEdge (App_newEdge now c) (edges t) \<and>
   source (App_newEdge now c) = source c \<and>
   target (App_newEdge now c) = target c"
  by (simp add: onConnect_def pushToHistory_def stack_newEdge_def json_copy_edges_def
      App_onConnect_def App_newEdge_def pushHistory_def Let_def)

theorem connect_never_rejects_witness:
  "list_all (\<lambda>n. node_id n \<noteq> ''missing-id'') (nodes stack_example) \<and>
   nodes (onConnect ''e2'' (scenario_connection ''missing-id'' ''n2'') stack_example)
     = nodes stack_example \<and>
   length (edges (onConnect ''e2'' (scenario_connection ''missing-id'' ''n2'') stack_example)) = 2 \<and>
   source (last (edges (onConnect ''e2'' (scenario_connection ''missing-id'' ''n2'') stack_example)))
     = ''missing-id''"
proof -
  have a: "list_all (\<lambda>n. node_id n \<noteq> ''missing-id'') (nodes stack_example)"
    by (simp add: stack_defs)
  have b: "length (edges stack_example) = 1"
    by (simp add: stack_defs)
  have c: "source (scenario_connection ''missing-id'' ''n2'') = ''missing-id''"
    by (simp add: scenario_connection_def)
  from connect_never_rejects
    [of "''e2''" "scenario_connection ''missing-id'' ''n2''" stack_example append_edge "''4''"
        index_example] a b c
  show ?thesis by simp
qed

text \<open>
  A connection whose source names no node of the store is accepted: the
  edge sequence grows.
\<close>

theorem connect_invalid_counterexample:
  "list_all (\<lambda>n. node_id n \<noteq> ''missing-id'') (nodes stack_example) \<and>
   edges (onConnect ''e2'' (scenario_connection ''missing-id'' ''n2'') stack_example)
     \<noteq> edges stack_example"
  by (simp add: stack_defs)

section \<open>The entry recorded by a mutation\<close>




section \<open>Loading a diagram\<close>

lemma loadDiagram_unmappable_suspends:
  "nodes (loadDiagram (Parsed NodesUnmappable (EdgesArray es)) t) = nodes t \<and>
   edges (loadDiagram (Parsed NodesUnmappable (EdgesArray es)) t) = edges t \<and>
   history (loadDiagram (Parsed NodesUnmappable (EdgesArray es)) t) = history t \<and>
   historyIndex (loadDiagram (Parsed NodesUnmappable (EdgesArray es)) t) = historyIndex t \<and>
   skipHistoryRef (loadDiagram (Parsed NodesUnmappable (EdgesArray es)) t)"
  by simp

lemma loadDiagram_no_diagram:
  "loadDiagram (Parsed NodesFalsy e) t = t \<and> loadDiagram (Parsed n EdgesFalsy) t = t"
  by (cases n) simp_all

lemma loadDiagram_failure:
  assumes "\<forall>ns es. f \<noteq> Parsed (NodesArray ns) (EdgesArray es)"
  shows "nodes (loadDiagram f t) = nodes t \<and> edges (loadDiagram f t) = edges t \<and>
         history (loadDiagram f t) = history t \<and>
         historyIndex (loadDiagram f t) = historyIndex t"
  using assms by (induction f t rule: loadDiagram.induct) simp_all

text \<open>
  C7: loading a file that holds \<open>N\<close> nodes and \<open>M\<close> edges makes exactly these
  the live state (each node with the label function of the render the load
  ran in), and the
  history becomes the single entry that copies them, so that neither undo
  nor redo has anywhere to go. A file that cannot be parsed leaves the whole
  state as it was, and every file that is not loaded leaves the live nodes
  and edges and the history as they were.
\<close>

theorem load_replaces_or_leaves_untouched:
  "nodes (loadDiagram (Parsed (NodesArray ns) (EdgesArray es)) t)
     = map (restore_callback (current_callback t)) ns \<and>
   length (nodes (loadDiagram (Parsed (NodesArray ns) (EdgesArray es)) t)) = length ns \<and>
   json_copy_nodes (nodes (loadDiagram (Parsed (NodesArray ns) (EdgesArray es)) t))
     = json_copy_nodes ns \<and>
   edges (loadDiagram (Parsed (NodesArray ns) (EdgesArray es)) t) = es \<and>
   history (loadDiagram (Parsed (NodesArray ns) (EdgesArray es)) t)
     = [\<lparr>nodes = json_copy_nodes ns, edges = es\<rparr>] \<and>
   historyIndex (loadDiagram (Parsed (NodesArray ns) (EdgesArray es)) t) = 0 \<and>
   undo (loadDiagram (Parsed (NodesArray ns) (EdgesArray es)) t)
     = loadDiagram (Parsed (NodesArray ns) (EdgesArray es)) t \<and>
   redo (loadDiagram (Parsed (NodesArray ns) (EdgesArray es)) t)
     = loadDiagram (Parsed (NodesArray ns) (EdgesArray es)) t \<and>
   loadDiagram Unparseable t = t \<and>
   loadDiagram ParsedNull t = t \<and>
   ((\<forall>ns' es'. f \<noteq> Parsed (NodesArray ns') (EdgesArray es')) \<longrightarrow>
      nodes (loadDiagram f t) = nodes t \<and> edges (loadDiagram f t) = edges t \<and>
      history (loadDiagram f t) = history t \<and>
      historyIndex (loadDiagram f t) = historyIndex t)"
  using loadDiagram_failure[of f t]
  by (simp add: Let_def json_copy_edges_def undo_def redo_def)

theorem load_replaces_or_leaves_untouched_witness:
  "nodes (loadDiagram (Parsed (NodesArray (json_copy_nodes (nodes index_example)))
                         (EdgesArray (edges index_example)))
            (undo index_example))
     = map (restore_callback (current_callback (undo index_example))) (nodes index_example) \<and>
   json_copy_nodes
       (nodes (loadDiagram (Parsed (NodesArray (json_copy_nodes (nodes index_example)))
                              (EdgesArray (edges index_example)))
                 (undo index_example)))
     = json_copy_nodes (nodes index_example) \<and>
   edges (loadDiagram (Parsed (NodesArray (json_copy_nodes (nodes index_example)))
                         (EdgesArray (edges index_example)))
            (undo index_example)) = edges index_example \<and>
   length (history (undo index_example)) = 4 \<and>
   length (history (loadDiagram (Parsed (NodesArray (json_copy_nodes (nodes index_example)))
                                   (EdgesArray (edges index_example)))
                      (undo index_example))) = 1 \<and>
   loadDiagram Unparseable (undo index_example) = undo index_example \<and>
   history (loadDiagram (Parsed NodesUnmappable (EdgesArray [])) (undo index_example))
     = history (undo index_example) \<and>
   nodes (loadDiagram (Parsed NodesUnmappable (EdgesArray [])) (undo index_example))
     = nodes (undo index_example)"
proof -
  let ?l = "loadDiagram (Parsed (NodesArray (json_copy_nodes (nodes index_example)))
                         (EdgesArray (edges index_example))) (undo index_example)"
  have b: "length (history (undo index_example)) = 4"
    by (simp add: index_defs)
  have c: "\<forall>ns' es'. Parsed NodesUnmappable (EdgesArray []) \<noteq> Parsed (NodesArray ns') (EdgesArray es')"
    by simp
  note th = load_replaces_or_leaves_untouched
    [of "json_copy_nodes (nodes index_example)" "edges index_example" "undo index_example"
        "Parsed NodesUnmappable (EdgesArray [])"]
  from th have "nodes ?l = map (restore_callback (current_callback (undo index_example)))
                             (json_copy_nodes (nodes index_example))"
    by blast
  then have d: "nodes ?l
      = map (restore_callback (current_callback (undo index_example))) (nodes index_example)"
    by (simp only: map_restore_json_copy)
  from th have "json_copy_nodes (nodes ?l) = json_copy_nodes (json_copy_nodes (nodes index_example))"
    by blast
  then have f: "json_copy_nodes (nodes ?l) = json_copy_nodes (nodes index_example)"
    by (simp only: json_copy_idem)
  from th have "history ?l
      = [\<lparr>nodes = json_copy_nodes (json_copy_nodes (nodes index_example)),
          edges = edges index_example\<rparr>]"
    by blast
  then have e: "length (history ?l) = 1"
    by simp
  from th b c d e f show ?thesis by blast
qed

section \<open>Relabelling\<close>

lemma relabel_absent:
  "\<forall>n\<in>set ns. node_id n \<noteq> i \<Longrightarrow> map (\<lambda>n. if node_id n = i then f n else n) ns = ns"
  by (induction ns) simp_all

text \<open>
  C8: a relabel for an id that no node carries leaves the node sequence as it
  was; otherwise every node with that id gets the new label, taken as it is,
  and every other node stays as it was. The edges are never touched. This
  holds for both editors; in the indexed one the label function that is run
  also stores itself in the relabelled node.
\<close>

theorem relabel_nodes_and_edges:
  "((\<forall>n\<in>set (nodes s). node_id n \<noteq> i) \<longrightarrow> nodes (onNodeLabelChange i l s) = nodes s) \<and>
   length (nodes (onNodeLabelChange i l s)) = length (nodes s) \<and>
   (\<forall>k<length (nodes s).
      nodes (onNodeLabelChange i l s) ! k =
        (if node_id (nodes s ! k) = i then (nodes s ! k)\<lparr>label := l\<rparr> else nodes s ! k)) \<and>
   edges (onNodeLabelChange i l s) = edges s \<and>
   ((\<forall>n\<in>set (nodes t). node_id n \<noteq> i) \<longrightarrow> nodes (handleLabelChange c i l t) = nodes t) \<and>
   length (nodes (handleLabelChange c i l t)) = length (nodes t) \<and>
   (\<forall>k<length (nodes t).
      nodes (handleLabelChange c i l t) ! k =
        (if node_id (nodes t ! k) = i then (nodes t ! k)\<lparr>label := l, onChangeLabel := Some c\<rparr>
         else nodes t ! k)) \<and>
   edges (handleLabelChange c i l t) = edges t"
  by (simp add: onNodeLabelChange_def handleLabelChange_def pushToHistory_def pushHistory_def
      Let_def relabel_absent)

theorem relabel_nodes_and_edges_witness:
  "list_all (\<lambda>n. node_id n \<noteq> ''nonexistent'') (nodes stack_example) \<and>
   nodes (onNodeLabelChange ''nonexistent'' ''X'' stack_example) = nodes stack_example \<and>
   list_all (\<lambda>n. node_id n \<noteq> ''nonexistent'') (nodes index_example) \<and>
   nodes (handleLabelChange (current_callback index_init) ''nonexistent'' ''X'' index_example)
     = nodes index_example \<and>
   node_id (nodes stack_example ! 0) = ''n1'' \<and>
   label (nodes stack_example ! 0) = ''Rectangle'' \<and>
   label (nodes (onNodeLabelChange ''n1'' [] stack_example) ! 0) = [] \<and>
   nodes (onNodeLabelChange ''n1'' [] stack_example) ! 1 = nodes stack_example ! 1 \<and>
   edges (onNodeLabelChange ''n1'' [] stack_example) = edges stack_example \<and>
   onChangeLabel (nodes index_example ! 0) = Some (current_callback index_init) \<and>
   label (nodes (handleLabelChange (current_callback index_init) ''node_1'' ''Start''
                   index_example) ! 0) = ''Start'' \<and>
   nodes (handleLabelChange (current_callback index_init) ''node_1'' ''Start'' index_example) ! 1
     = nodes index_example ! 1 \<and>
   edges (handleLabelChange (current_callback index_init) ''node_1'' ''Start'' index_example)
     = edges index_example"
proof -
  have a: "list_all (\<lambda>n. node_id n \<noteq> ''nonexistent'') (nodes stack_example)"
    "list_all (\<lambda>n. node_id n \<noteq> ''nonexistent'') (nodes index_example)"
    by (simp_all add: stack_defs index_defs)
  have b: "length (nodes stack_example) = 2" "length (nodes index_example) = 2"
    "node_id (nodes stack_example ! 0) = ''n1''" "node_id (nodes stack_example ! 1) = ''n2''"
    "node_id (nodes index_example ! 0) = ''node_1''" "node_id (nodes index_example ! 1) = ''node_2''"
    "label (nodes stack_example ! 0) = ''Rectangle''"
    "onChangeLabel (nodes index_example ! 0) = Some (current_callback index_init)"
    by (simp_all add: stack_defs index_defs)
  from relabel_nodes_and_edges
      [of stack_example "''nonexistent''" "''X''" index_example "current_callback index_init"]
    relabel_nodes_and_edges
      [of stack_example "''n1''" "[]" index_example "current_callback index_init"]
    relabel_nodes_and_edges
      [of stack_example "''node_1''" "''Start''" index_example "current_callback index_init"]
    a b
  show ?thesis by (simp add: list_all_iff)
qed

text \<open>
  C9: in the two-stack editor a relabel for an id that no node carries still
  records: the undo stack grows by one entry, the copy of the unchanged
  store, and the redo stack is emptied.
\<close>

theorem noop_relabel_consumes_history:
  assumes "\<forall>n\<in>set (nodes s). node_id n \<noteq> i"
  shows "nodes (onNodeLabelChange i l s) = nodes s \<and>
         edges (onNodeLabelChange i l s) = edges s \<and>
         historyRef (onNodeLabelChange i l s)
           = historyRef s @ [\<lparr>nodes = json_copy_nodes (nodes s), edges = edges s\<rparr>] \<and>
         length (historyRef (onNodeLabelChange i l s)) = length (historyRef s) + 1 \<and>
         redoRef (onNodeLabelChange i l s) = []"
  using assms
  by (simp add: onNodeLabelChange_def pushToHistory_def Let_def relabel_absent
      json_copy_edges_def)

theorem noop_relabel_consumes_history_witness:
  "list_all (\<lambda>n. node_id n \<noteq> ''nonexistent'') (nodes (handleUndo stack_example)) \<and>
   redoRef (handleUndo stack_example) \<noteq> [] \<and>
   nodes (onNodeLabelChange ''nonexistent'' ''X'' (handleUndo stack_example))
     = nodes (handleUndo stack_example) \<and>
   edges (onNodeLabelChange ''nonexistent'' ''X'' (handleUndo stack_example))
     = edges (handleUndo stack_example) \<and>
   length (historyRef (handleUndo stack_example)) = 2 \<and>
   length (historyRef (onNodeLabelChange ''nonexistent'' ''X'' (handleUndo stack_example))) = 3 \<and>
   redoRef (onNodeLabelChange ''nonexistent'' ''X'' (handleUndo stack_example)) = []"
proof -
  have a: "\<forall>n\<in>set (nodes (handleUndo stack_example)). node_id n \<noteq> ''nonexistent''"
    by (simp add: stack_defs)
  have b: "redoRef (handleUndo stack_example) \<noteq> []"
    "length (historyRef (handleUndo stack_example)) = 2"
    by (simp_all add: stack_defs)
  from noop_relabel_consumes_history [OF a, of "''X''"] a b
  show ?thesis by (simp add: list_all_iff)
qed

section \<open>The label committed on blur\<close>

lemma trim_no_leading: "trim t \<noteq> [] \<Longrightarrow> \<not> is_whitespace (hd (trim t))"
proof -
  assume ne: "trim t \<noteq> []"
  let ?d = "dropWhile is_whitespace t"
  let ?e = "dropWhile is_whitespace (rev ?d)"
  have e: "trim t = rev ?e" by (simp add: trim_def)
  with ne have ene: "?e \<noteq> []" by simp
  have dne: "?d \<noteq> []"
  proof
    assume "?d = []"
    then have "?e = []" by (simp only: rev.simps dropWhile.simps)
    with ene show False by contradiction
  qed
  have "rev ?d = takeWhile is_whitespace (rev ?d) @ ?e" by simp
  then have "last (rev ?d) = last ?e" using ene by (metis last_appendR)
  then have "hd ?d = last ?e" using dne by (simp add: last_rev)
  moreover have "hd (rev ?e) = last ?e" using ene by (simp add: hd_rev)
  ultimately have "hd (trim t) = hd ?d" by (simp add: e)
  moreover have "\<not> is_whitespace (hd ?d)" using dne by (rule hd_dropWhile)
  ultimately show ?thesis by simp
qed

lemma trim_no_trailing: "trim t \<noteq> [] \<Longrightarrow> \<not> is_whitespace (last (trim t))"
proof -
  assume ne: "trim t \<noteq> []"
  let ?e = "dropWhile is_whitespace (rev (dropWhile is_whitespace t))"
  have e: "trim t = rev ?e" by (simp add: trim_def)
  with ne have ene: "?e \<noteq> []" by simp
  have "last (trim t) = hd ?e" using ene by (simp add: e last_rev)
  moreover have "\<not> is_whitespace (hd ?e)" using ene by (rule hd_dropWhile)
  ultimately show ?thesis by simp
qed

lemma trim_all_whitespace:
  assumes "\<forall>c\<in>set t. is_whitespace c"
  shows "trim t = []"
proof -
  from assms have "dropWhile is_whitespace t = []" by simp
  then show ?thesis by (simp only: trim_def rev.simps dropWhile.simps)
qed

lemma trim_decompose:
  "t = takeWhile is_whitespace t @ trim t @
       rev (takeWhile is_whitespace (rev (dropWhile is_whitespace t)))"
proof -
  let ?d = "dropWhile is_whitespace t"
  have "rev (trim t @ rev (takeWhile is_whitespace (rev ?d)))
          = takeWhile is_whitespace (rev ?d) @ dropWhile is_whitespace (rev ?d)"
    by (simp add: trim_def)
  also have "\<dots> = rev ?d" by simp
  finally have "trim t @ rev (takeWhile is_whitespace (rev ?d)) = ?d"
    by (simp only: rev_is_rev_conv)
  moreover have "t = takeWhile is_whitespace t @ ?d" by simp
  ultimately show ?thesis by simp
qed

text \<open>
  C10: when in-place editing ends, the text handed to the label callback is
  the trimmed input: the input without its leading and trailing white space,
  hence with none at either end, and empty when the input is white space
  only. In the indexed editor the function stored in the node is run and
  stores exactly this text.
\<close>

theorem blur_commits_trimmed_text:
  "snd (handleBlur n t)
     = (case onChangeLabel n of None \<Rightarrow> None | Some c \<Rightarrow> Some (c, node_id n, trim t)) \<and>
   (onChangeLabel n = Some c \<longrightarrow>
      blur_commit n t s = handleLabelChange c (node_id n) (trim t) s) \<and>
   (trim t \<noteq> [] \<longrightarrow> \<not> is_whitespace (hd (trim t)) \<and> \<not> is_whitespace (last (trim t))) \<and>
   ((\<forall>c\<in>set t. is_whitespace c) \<longrightarrow> trim t = []) \<and>
   (\<exists>pre suf. t = pre @ trim t @ suf \<and>
      (\<forall>c\<in>set pre. is_whitespace c) \<and> (\<forall>c\<in>set suf. is_whitespace c))"
proof -
  have "\<exists>pre suf. t = pre @ trim t @ suf \<and>
      (\<forall>c\<in>set pre. is_whitespace c) \<and> (\<forall>c\<in>set suf. is_whitespace c)"
  proof (intro exI conjI)
    show "t = takeWhile is_whitespace t @ trim t @
       rev (takeWhile is_whitespace (rev (dropWhile is_whitespace t)))"
      by (rule trim_decompose)
    show "\<forall>c\<in>set (takeWhile is_whitespace t). is_whitespace c"
      by (auto dest: set_takeWhileD)
    show "\<forall>c\<in>set (rev (takeWhile is_whitespace (rev (dropWhile is_whitespace t)))). is_whitespace c"
      by (auto dest: set_takeWhileD)
  qed
  then show ?thesis
    by (simp add: handleBlur_def blur_commit_def Let_def trim_no_leading trim_no_trailing
        trim_all_whitespace)
qed

theorem blur_commits_trimmed_text_witness:
  "onChangeLabel blur_example = Some (current_callback index_init) \<and>
   snd (handleBlur blur_example ''  Start here  '')
     = Some (current_callback index_init, ''node_1'', ''Start here'') \<and>
   label (nodes (blur_commit blur_example ''  Start here  '' index_example) ! 0) = ''Start here'' \<and>
   list_all is_whitespace [CHR 0x09, CHR '' '', CHR 0x0A] \<and>
   snd (handleBlur blur_example [CHR 0x09, CHR '' '', CHR 0x0A])
     = Some (current_callback index_init, ''node_1'', [])"
proof -
  have w: "is_whitespace CHR '' ''" "is_whitespace (CHR 0x09)" "is_whitespace (CHR 0x0A)"
    "\<not> is_whitespace CHR ''S''" "\<not> is_whitespace CHR ''e''"
    by (simp_all add: is_whitespace_def)
  have a: "onChangeLabel blur_example = Some (current_callback index_init)"
    "node_id blur_example = ''node_1''"
    by (simp_all add: blur_example_def index_defs)
  have b: "trim ''  Start here  '' = ''Start here''"
    by (simp add: trim_def w)
  have c: "label (nodes (handleLabelChange (current_callback index_init) ''node_1'' ''Start here''
                           index_example) ! 0)
             = ''Start here''"
    by (simp add: index_defs)
  from blur_commits_trimmed_text
      [of blur_example "''  Start here  ''" "current_callback index_init" index_example]
    blur_commits_trimmed_text
      [of blur_example "[CHR 0x09, CHR '' '', CHR 0x0A]" "current_callback index_init"
          index_example]
    a b c w
  show ?thesis by simp
qed

section \<open>Sharing of arrays between history and live state\<close>

subsection \<open>The heap model runs the same program\<close>

lemma deref_append:
  "allocated nas eas e \<Longrightarrow> deref (nas @ xs) (eas @ ys) e = deref nas eas e"
  by (simp add: deref_def allocated_def nth_append)

lemma map_deref_append:
  "list_all (allocated nas eas) es \<Longrightarrow>
   map (deref (nas @ xs) (eas @ ys)) es = map (deref nas eas) es"
  by (induction es) (simp_all add: deref_append)

lemma map_deref_append_nodes:
  "list_all (allocated nas eas) es \<Longrightarrow> map (deref (nas @ xs) eas) es = map (deref nas eas) es"
  using map_deref_append[of nas eas es xs "[]"] by simp

lemma map_deref_append_edges:
  "list_all (allocated nas eas) es \<Longrightarrow> map (deref nas (eas @ ys)) es = map (deref nas eas) es"
  using map_deref_append[of nas eas es "[]" ys] by simp

lemmas map_deref_grow = map_deref_append map_deref_append_nodes map_deref_append_edges

lemma allocated_append:
  "allocated nas eas e \<Longrightarrow> allocated (nas @ xs) (eas @ ys) e"
  by (simp add: allocated_def)

lemma list_all_allocated_append:
  "list_all (allocated nas eas) es \<Longrightarrow> list_all (allocated (nas @ xs) (eas @ ys)) es"
  by (induction es) (simp_all add: allocated_append)

lemma list_all_allocated_append_nodes:
  "list_all (allocated nas eas) es \<Longrightarrow> list_all (allocated (nas @ xs) eas) es"
  using list_all_allocated_append[of nas eas es xs "[]"] by simp

lemma list_all_allocated_append_edges:
  "list_all (allocated nas eas) es \<Longrightarrow> list_all (allocated nas (eas @ ys)) es"
  using list_all_allocated_append[of nas eas es "[]" ys] by simp

lemmas allocated_grow = list_all_allocated_append list_all_allocated_append_nodes
  list_all_allocated_append_edges

lemma view_pushToHistory:
  "ref_stack_wf s \<Longrightarrow> stack_view (ref_pushToHistory s) = pushToHistory (stack_view s)"
  by (simp add: ref_stack_wf_def stack_view_def ref_pushToHistory_def pushToHistory_def
      allocated_def nth_append map_deref_grow deref_def)

lemma wf_pushToHistory:
  "ref_stack_wf s \<Longrightarrow> ref_stack_wf (ref_pushToHistory s)"
  by (simp add: ref_stack_wf_def ref_pushToHistory_def allocated_grow)
     (simp add: allocated_def)

lemma view_stack_mutate:
  "ref_stack_wf s \<Longrightarrow> stack_view (ref_stack_mutate an ae m s) = stack_mutate an ae m (stack_view s)"
  by (cases m)
     (simp_all add: ref_stack_wf_def stack_view_def ref_pushToHistory_def pushToHistory_def
      ref_setNodes_def ref_setEdges_def onNodesChange_def onEdgesChange_def onConnect_def
      createNode_def onNodeLabelChange_def Let_def
      allocated_def nth_append map_deref_grow deref_def)

lemma view_handleUndo:
  "stack_view (ref_handleUndo s) = handleUndo (stack_view s)"
  by (cases "historyRef_r s" rule: rev_cases)
     (simp_all add: stack_view_def ref_handleUndo_def handleUndo_def deref_def snapshot_def)

lemma view_handleRedo:
  "stack_view (ref_handleRedo s) = handleRedo (stack_view s)"
  by (cases "redoRef_r s" rule: rev_cases)
     (simp_all add: stack_view_def ref_handleRedo_def handleRedo_def deref_def snapshot_def)

lemma list_all_take: "list_all P xs \<Longrightarrow> list_all P (take n xs)"
  by (auto simp: list_all_iff dest: in_set_takeD)

lemma view_index_mutate:
  "ref_index_wf s \<Longrightarrow>
   index_view (ref_index_mutate an ae ad m s) = index_mutate an ae ad m (index_view s)"
  by (cases m)
     (simp_all add: ref_index_wf_def index_view_def ref_pushHistory_def pushHistory_def
      ref_App_setNodes_def ref_App_setEdges_def ref_handleLabelChange_def
      ref_current_callback_def current_callback_def App_onNodesChange_def
      App_onEdgesChange_def App_onConnect_def onDrop_def handleLabelChange_def Let_def
      take_map [symmetric] allocated_def nth_append map_deref_grow deref_def list_all_take)

lemma view_undo:
  "ref_index_wf s \<Longrightarrow> index_view (ref_undo s) = undo (index_view s)"
  by (simp add: ref_index_wf_def index_view_def ref_undo_def undo_def Let_def
      ref_current_callback_def current_callback_def
      allocated_def nth_append map_deref_grow deref_def)

lemma view_redo:
  "ref_index_wf s \<Longrightarrow> index_view (ref_redo s) = redo (index_view s)"
  by (simp add: ref_index_wf_def index_view_def ref_redo_def redo_def Let_def
      ref_current_callback_def current_callback_def
      allocated_def nth_append map_deref_grow deref_def)

lemma wf_index_mutate:
  "ref_index_wf s \<Longrightarrow> ref_index_wf (ref_index_mutate an ae ad m s)"
  by (cases m)
     (simp_all add: ref_index_wf_def ref_pushHistory_def
      ref_App_setNodes_def ref_App_setEdges_def ref_handleLabelChange_def Let_def
      allocated_grow list_all_take allocated_def)

subsection \<open>Which arrays are shared\<close>

lemma allocated_fst: "list_all (allocated nas eas) es \<Longrightarrow> n \<in> fst ` set es \<Longrightarrow> n < length nas"
  by (auto simp: list_all_iff allocated_def)

lemma allocated_snd: "list_all (allocated nas eas) es \<Longrightarrow> e \<in> snd ` set es \<Longrightarrow> e < length eas"
  by (auto simp: list_all_iff allocated_def)

lemma separate_init: "separate ref_stack_init"
  by (simp add: separate_def ref_stack_wf_def unshared_def ref_stack_init_def allocated_def)

lemma separate_pushToHistory:
  assumes "separate s"
  shows "separate (ref_pushToHistory s)"
proof -
  from assms have wf: "ref_stack_wf s" and un: "unshared s" by (simp_all add: separate_def)
  have fresh_n: "length (node_arrays s) \<notin> fst ` set (historyRef_r s)"
    using wf allocated_fst[of "node_arrays s" "edge_arrays s" "historyRef_r s" "length (node_arrays s)"]
    by (auto simp: ref_stack_wf_def)
  have fresh_e: "length (edge_arrays s) \<notin> snd ` set (historyRef_r s)"
    using wf allocated_snd[of "node_arrays s" "edge_arrays s" "historyRef_r s" "length (edge_arrays s)"]
    by (auto simp: ref_stack_wf_def)
  have live: "nodes_ref s < length (node_arrays s)" "edges_ref s < length (edge_arrays s)"
    using wf by (simp_all add: ref_stack_wf_def allocated_def)
  have "ref_stack_wf (ref_pushToHistory s)" using wf by (rule wf_pushToHistory)
  moreover have "unshared (ref_pushToHistory s)"
    using un fresh_n fresh_e live by (auto simp: unshared_def ref_pushToHistory_def)
  ultimately show ?thesis by (simp add: separate_def)
qed

lemma separate_setNodes:
  assumes "separate s"
  shows "separate (ref_setNodes f s)"
proof -
  from assms have wf: "ref_stack_wf s" and un: "unshared s" by (simp_all add: separate_def)
  have fresh: "length (node_arrays s) \<notin> fst ` set (historyRef_r s @ redoRef_r s)"
    using wf allocated_fst[of "node_arrays s" "edge_arrays s" "historyRef_r s @ redoRef_r s"
        "length (node_arrays s)"]
    by (auto simp: ref_stack_wf_def)
  have "ref_stack_wf (ref_setNodes f s)"
    using wf by (simp add: ref_stack_wf_def ref_setNodes_def allocated_grow) (simp add: allocated_def)
  moreover have "unshared (ref_setNodes f s)"
    using un fresh by (auto simp: unshared_def ref_setNodes_def)
  ultimately show ?thesis by (simp add: separate_def)
qed

lemma separate_setEdges:
  assumes "separate s"
  shows "separate (ref_setEdges g s)"
proof -
  from assms have wf: "ref_stack_wf s" and un: "unshared s" by (simp_all add: separate_def)
  have fresh: "length (edge_arrays s) \<notin> snd ` set (historyRef_r s @ redoRef_r s)"
    using wf allocated_snd[of "node_arrays s" "edge_arrays s" "historyRef_r s @ redoRef_r s"
        "length (edge_arrays s)"]
    by (auto simp: ref_stack_wf_def)
  have "ref_stack_wf (ref_setEdges g s)"
    using wf by (simp add: ref_stack_wf_def ref_setEdges_def allocated_grow) (simp add: allocated_def)
  moreover have "unshared (ref_setEdges g s)"
    using un fresh by (auto simp: unshared_def ref_setEdges_def)
  ultimately show ?thesis by (simp add: separate_def)
qed

lemma separate_mutate: "separate s \<Longrightarrow> separate (ref_stack_mutate an ae m s)"
  by (cases m) (simp_all add: separate_setNodes separate_setEdges separate_pushToHistory)

lemma separate_handleUndo: "separate s \<Longrightarrow> separate (ref_handleUndo s)"
  by (cases "historyRef_r s" rule: rev_cases)
     (auto simp: separate_def ref_stack_wf_def unshared_def ref_handleUndo_def allocated_def)

lemma separate_handleRedo: "separate s \<Longrightarrow> separate (ref_handleRedo s)"
  by (cases "redoRef_r s" rule: rev_cases)
     (auto simp: separate_def ref_stack_wf_def unshared_def ref_handleRedo_def allocated_def)

lemma deref_update_nodes:
  "fst e \<noteq> r \<Longrightarrow> deref (nas[r := v]) eas e = deref nas eas e"
  by (simp add: deref_def)

lemma deref_update_edges:
  "snd e \<noteq> r \<Longrightarrow> deref nas (eas[r := v]) e = deref nas eas e"
  by (simp add: deref_def)

lemma map_deref_update_nodes:
  "r \<notin> fst ` set es \<Longrightarrow> map (deref (nas[r := v]) eas) es = map (deref nas eas) es"
  by (induction es) (auto simp: deref_update_nodes)

lemma map_deref_update_edges:
  "r \<notin> snd ` set es \<Longrightarrow> map (deref nas (eas[r := v])) es = map (deref nas eas) es"
  by (induction es) (auto simp: deref_update_edges)

lemma separate_write_nodes:
  assumes "separate s"
  shows "historyRef (stack_view (write_live_nodes v s)) = historyRef (stack_view s)"
    and "redoRef (stack_view (write_live_nodes v s)) = redoRef (stack_view s)"
proof -
  from assms have "nodes_ref s \<notin> fst ` set (historyRef_r s)"
    and "nodes_ref s \<notin> fst ` set (redoRef_r s)"
    by (auto simp: separate_def unshared_def)
  then show "historyRef (stack_view (write_live_nodes v s)) = historyRef (stack_view s)"
    and "redoRef (stack_view (write_live_nodes v s)) = redoRef (stack_view s)"
    by (simp_all add: stack_view_def write_live_nodes_def map_deref_update_nodes)
qed

lemma separate_write_edges:
  assumes "separate s"
  shows "historyRef (stack_view (write_live_edges v s)) = historyRef (stack_view s)"
    and "redoRef (stack_view (write_live_edges v s)) = redoRef (stack_view s)"
proof -
  from assms have "edges_ref s \<notin> snd ` set (historyRef_r s)"
    and "edges_ref s \<notin> snd ` set (redoRef_r s)"
    by (auto simp: separate_def unshared_def)
  then show "historyRef (stack_view (write_live_edges v s)) = historyRef (stack_view s)"
    and "redoRef (stack_view (write_live_edges v s)) = redoRef (stack_view s)"
    by (simp_all add: stack_view_def write_live_edges_def map_deref_update_edges)
qed

lemma ref_undo_shares_edges:
  assumes "0 < historyIndex_r s" and "historyIndex_r s \<le> length (history_r s)"
  shows "edges_ref (ref_undo s) = snd (history_r (ref_undo s) ! historyIndex_r (ref_undo s))"
    and "nodes_ref (ref_undo s) = length (node_arrays s)"
    and "history_r (ref_undo s) = history_r s"
proof -
  from assms have "historyIndex_r s - 1 < length (history_r s)" by arith
  with assms(1)
  show "edges_ref (ref_undo s) = snd (history_r (ref_undo s) ! historyIndex_r (ref_undo s))"
    and "nodes_ref (ref_undo s) = length (node_arrays s)"
    and "history_r (ref_undo s) = history_r s"
    by (simp_all add: ref_undo_def Let_def)
qed

lemma ref_redo_shares_edges:
  assumes "historyIndex_r s + 1 < length (history_r s)"
  shows "edges_ref (ref_redo s) = snd (history_r (ref_redo s) ! historyIndex_r (ref_redo s))"
    and "nodes_ref (ref_redo s) = length (node_arrays s)"
    and "history_r (ref_redo s) = history_r s"
  using assms by (simp_all add: ref_redo_def Let_def)

lemma ref_setNodes_fresh:
  assumes "\<not> skipHistoryRef_r s" and "ref_index_wf s"
  shows "length (node_arrays s) \<le> fst (last (history_r (ref_App_setNodes f s)))"
    and "length (edge_arrays s) \<le> snd (last (history_r (ref_App_setNodes f s)))"
    and "fst (last (history_r (ref_App_setNodes f s))) \<noteq> nodes_ref (ref_App_setNodes f s)"
    and "snd (last (history_r (ref_App_setNodes f s))) \<noteq> edges_ref (ref_App_setNodes f s)"
  using assms
  by (simp_all add: ref_App_setNodes_def ref_pushHistory_def Let_def ref_index_wf_def
      allocated_def)

lemma ref_setEdges_fresh:
  assumes "\<not> skipHistoryRef_r s" and "ref_index_wf s"
  shows "length (node_arrays s) \<le> fst (last (history_r (ref_App_setEdges g s)))"
    and "length (edge_arrays s) \<le> snd (last (history_r (ref_App_setEdges g s)))"
    and "fst (last (history_r (ref_App_setEdges g s))) \<noteq> nodes_ref (ref_App_setEdges g s)"
    and "snd (last (history_r (ref_App_setEdges g s))) \<noteq> edges_ref (ref_App_setEdges g s)"
  using assms
  by (simp_all add: ref_App_setEdges_def ref_pushHistory_def Let_def ref_index_wf_def
      allocated_def)

lemma ref_handleLabelChange_fresh:
  assumes "\<not> skipHistoryRef_r s" and "ref_index_wf s"
  shows "length (node_arrays s) \<le> fst (last (history_r (ref_handleLabelChange c i v s)))"
    and "length (edge_arrays s) \<le> snd (last (history_r (ref_handleLabelChange c i v s)))"
    and "fst (last (history_r (ref_handleLabelChange c i v s)))
           \<noteq> nodes_ref (ref_handleLabelChange c i v s)"
    and "snd (last (history_r (ref_handleLabelChange c i v s)))
           \<noteq> edges_ref (ref_handleLabelChange c i v s)"
  using assms
  by (simp_all add: ref_handleLabelChange_def ref_pushHistory_def Let_def ref_index_wf_def
      allocated_def)

lemma ref_index_mutate_fresh:
  assumes "\<not> skipHistoryRef_r s" and "ref_index_wf s"
  shows "length (node_arrays s) \<le> fst (last (history_r (ref_index_mutate an ae ad m s))) \<and>
     length (edge_arrays s) \<le> snd (last (history_r (ref_index_mutate an ae ad m s))) \<and>
     fst (last (history_r (ref_index_mutate an ae ad m s)))
           \<noteq> nodes_ref (ref_index_mutate an ae ad m s) \<and>
     snd (last (history_r (ref_index_mutate an ae ad m s)))
           \<noteq> edges_ref (ref_index_mutate an ae ad m s)"
proof (cases m)
  case (INodesChange ch)
  then show ?thesis using ref_setNodes_fresh[OF assms] by simp
next
  case (IEdgesChange ch)
  then show ?thesis using ref_setEdges_fresh[OF assms] by simp
next
  case (IConnect now c)
  then show ?thesis using ref_setEdges_fresh[OF assms] by simp
next
  case (IDrop ty pos now)
  then show ?thesis using ref_setNodes_fresh[OF assms] by simp
next
  case (ILabelChange c i v)
  then show ?thesis using ref_handleLabelChange_fresh[OF assms] by simp
qed

lemma wf_stack_mutate: "ref_stack_wf s \<Longrightarrow> ref_stack_wf (ref_stack_mutate an ae m s)"
  using separate_mutate[of s an ae m]
  by (cases m)
     (simp_all add: ref_stack_wf_def ref_pushToHistory_def ref_setNodes_def ref_setEdges_def
       allocated_grow allocated_def)

lemma view_stack_run:
  "ref_stack_wf s \<Longrightarrow> stack_view (ref_stack_run an ae ms s) = stack_run an ae ms (stack_view s)"
  by (induction ms arbitrary: s) (simp_all add: view_stack_mutate wf_stack_mutate)

lemma view_index_run:
  "ref_index_wf s \<Longrightarrow> index_view (ref_index_run an ae ad ms s) = index_run an ae ad ms (index_view s)"
  by (induction ms arbitrary: s) (simp_all add: view_index_mutate wf_index_mutate)

lemma handlers_only_allocate:
  "take (length (node_arrays s)) (node_arrays (ref_stack_mutate an ae m s)) = node_arrays s \<and>
   take (length (edge_arrays s)) (edge_arrays (ref_stack_mutate an ae m s)) = edge_arrays s \<and>
   node_arrays (ref_handleUndo s) = node_arrays s \<and>
   edge_arrays (ref_handleUndo s) = edge_arrays s \<and>
   node_arrays (ref_handleRedo s) = node_arrays s \<and>
   edge_arrays (ref_handleRedo s) = edge_arrays s"
proof -
  have "take (length (node_arrays s)) (node_arrays (ref_stack_mutate an ae m s)) = node_arrays s \<and>
     take (length (edge_arrays s)) (edge_arrays (ref_stack_mutate an ae m s)) = edge_arrays s"
    by (cases m) (simp_all add: ref_pushToHistory_def ref_setNodes_def ref_setEdges_def)
  moreover have "node_arrays (ref_handleUndo s) = node_arrays s \<and>
     edge_arrays (ref_handleUndo s) = edge_arrays s"
    by (cases "historyRef_r s" rule: rev_cases) (simp_all add: ref_handleUndo_def)
  moreover have "node_arrays (ref_handleRedo s) = node_arrays s \<and>
     edge_arrays (ref_handleRedo s) = edge_arrays s"
    by (cases "redoRef_r s" rule: rev_cases) (simp_all add: ref_handleRedo_def)
  ultimately show ?thesis by simp
qed

lemma index_handlers_only_allocate:
  "take (length (node_arrays t)) (node_arrays (ref_index_mutate an ae ad m t)) = node_arrays t \<and>
   take (length (edge_arrays t)) (edge_arrays (ref_index_mutate an ae ad m t)) = edge_arrays t \<and>
   take (length (node_arrays t)) (node_arrays (ref_undo t)) = node_arrays t \<and>
   edge_arrays (ref_undo t) = edge_arrays t \<and>
   take (length (node_arrays t)) (node_arrays (ref_redo t)) = node_arrays t \<and>
   edge_arrays (ref_redo t) = edge_arrays t"
proof -
  have "take (length (node_arrays t)) (node_arrays (ref_index_mutate an ae ad m t)) = node_arrays t \<and>
     take (length (edge_arrays t)) (edge_arrays (ref_index_mutate an ae ad m t)) = edge_arrays t"
    by (cases m)
       (simp_all add: ref_pushHistory_def ref_App_setNodes_def ref_App_setEdges_def
         ref_handleLabelChange_def Let_def)
  moreover have "take (length (node_arrays t)) (node_arrays (ref_undo t)) = node_arrays t \<and>
     edge_arrays (ref_undo t) = edge_arrays t"
    by (simp add: ref_undo_def Let_def)
  moreover have "take (length (node_arrays t)) (node_arrays (ref_redo t)) = node_arrays t \<and>
     edge_arrays (ref_redo t) = edge_arrays t"
    by (simp add: ref_redo_def Let_def)
  ultimately show ?thesis by simp
qed

text \<open>
  C4, as the code has it. No handler of either editor writes into an array
  that exists: each only allocates, so the content of a stored entry is
  never altered by the editors themselves. An entry recorded by a mutation
  is a fresh copy in both editors. In the two-stack editor undo and redo
  move the displaced live arrays, uncopied, onto the other stack and make
  the popped arrays the live ones, so that from the empty diagram on no
  array is ever held twice among the live state and the entries, and even a
  write into a live array would leave the content of every entry as it was.
  In the indexed editor undo and redo make a fresh nodes array, but the
  edges array of the entry they step to becomes the live edges array while
  that entry stays in the history.
\<close>

theorem history_array_sharing:
  "separate ref_stack_init \<and>
   (separate s \<longrightarrow>
      separate (ref_stack_mutate an ae m s) \<and>
      separate (ref_handleUndo s) \<and>
      separate (ref_handleRedo s) \<and>
      historyRef (stack_view (write_live_nodes ns s)) = historyRef (stack_view s) \<and>
      redoRef (stack_view (write_live_nodes ns s)) = redoRef (stack_view s) \<and>
      historyRef (stack_view (write_live_edges es s)) = historyRef (stack_view s) \<and>
      redoRef (stack_view (write_live_edges es s)) = redoRef (stack_view s)) \<and>
   take (length (node_arrays s)) (node_arrays (ref_stack_mutate an ae m s)) = node_arrays s \<and>
   take (length (edge_arrays s)) (edge_arrays (ref_stack_mutate an ae m s)) = edge_arrays s \<and>
   node_arrays (ref_handleUndo s) = node_arrays s \<and>
   edge_arrays (ref_handleUndo s) = edge_arrays s \<and>
   node_arrays (ref_handleRedo s) = node_arrays s \<and>
   edge_arrays (ref_handleRedo s) = edge_arrays s \<and>
   take (length (node_arrays t)) (node_arrays (ref_index_mutate ian iae ad im t)) = node_arrays t \<and>
   take (length (edge_arrays t)) (edge_arrays (ref_index_mutate ian iae ad im t)) = edge_arrays t \<and>
   take (length (node_arrays t)) (node_arrays (ref_undo t)) = node_arrays t \<and>
   edge_arrays (ref_undo t) = edge_arrays t \<and>
   take (length (node_arrays t)) (node_arrays (ref_redo t)) = node_arrays t \<and>
   edge_arrays (ref_redo t) = edge_arrays t \<and>
   (\<not> skipHistoryRef_r t \<and> ref_index_wf t \<longrightarrow>
      length (node_arrays t) \<le> fst (last (history_r (ref_index_mutate ian iae ad im t))) \<and>
      length (edge_arrays t) \<le> snd (last (history_r (ref_index_mutate ian iae ad im t))) \<and>
      fst (last (history_r (ref_index_mutate ian iae ad im t)))
        \<noteq> nodes_ref (ref_index_mutate ian iae ad im t) \<and>
      snd (last (history_r (ref_index_mutate ian iae ad im t)))
        \<noteq> edges_ref (ref_index_mutate ian iae ad im t)) \<and>
   (0 < historyIndex_r t \<and> historyIndex_r t \<le> length (history_r t) \<longrightarrow>
      edges_ref (ref_undo t) = snd (history_r (ref_undo t) ! historyIndex_r (ref_undo t)) \<and>
      nodes_ref (ref_undo t) = length (node_arrays t) \<and>
      history_r (ref_undo t) = history_r t) \<and>
   (historyIndex_r t + 1 < length (history_r t) \<longrightarrow>
      edges_ref (ref_redo t) = snd (history_r (ref_redo t) ! historyIndex_r (ref_redo t)) \<and>
      nodes_ref (ref_redo t) = length (node_arrays t) \<and>
      history_r (ref_redo t) = history_r t)"
proof -
  have two_stack: "separate s \<longrightarrow>
      separate (ref_stack_mutate an ae m s) \<and>
      separate (ref_handleUndo s) \<and>
      separate (ref_handleRedo s) \<and>
      historyRef (stack_view (write_live_nodes ns s)) = historyRef (stack_view s) \<and>
      redoRef (stack_view (write_live_nodes ns s)) = redoRef (stack_view s) \<and>
      historyRef (stack_view (write_live_edges es s)) = historyRef (stack_view s) \<and>
      redoRef (stack_view (write_live_edges es s)) = redoRef (stack_view s)"
    using separate_mutate[of s an ae m] separate_handleUndo[of s] separate_handleRedo[of s]
      separate_write_nodes[of s ns] separate_write_edges[of s es]
    by blast
  have fresh: "\<not> skipHistoryRef_r t \<and> ref_index_wf t \<longrightarrow>
      length (node_arrays t) \<le> fst (last (history_r (ref_index_mutate ian iae ad im t))) \<and>
      length (edge_arrays t) \<le> snd (last (history_r (ref_index_mutate ian iae ad im t))) \<and>
      fst (last (history_r (ref_index_mutate ian iae ad im t)))
        \<noteq> nodes_ref (ref_index_mutate ian iae ad im t) \<and>
      snd (last (history_r (ref_index_mutate ian iae ad im t)))
        \<noteq> edges_ref (ref_index_mutate ian iae ad im t)"
    using ref_index_mutate_fresh[of t ian iae ad im] by blast
  have undo_part: "0 < historyIndex_r t \<and> historyIndex_r t \<le> length (history_r t) \<longrightarrow>
      edges_ref (ref_undo t) = snd (history_r (ref_undo t) ! historyIndex_r (ref_undo t)) \<and>
      nodes_ref (ref_undo t) = length (node_arrays t) \<and>
      history_r (ref_undo t) = history_r t"
    using ref_undo_shares_edges[of t] by blast
  have redo_part: "historyIndex_r t + 1 < length (history_r t) \<longrightarrow>
      edges_ref (ref_redo t) = snd (history_r (ref_redo t) ! historyIndex_r (ref_redo t)) \<and>
      nodes_ref (ref_redo t) = length (node_arrays t) \<and>
      history_r (ref_redo t) = history_r t"
    using ref_redo_shares_edges[of t] by blast
  from separate_init two_stack handlers_only_allocate[of s an ae m]
    index_handlers_only_allocate[of t ian iae ad im] fresh undo_part redo_part
  show ?thesis by (intro conjI) (erule conjE | assumption)+
qed

lemmas ref_defs = ref_stack_example_def ref_index_example_def stack_scenario_def
  index_scenario_def scenario_connection_def keep_def append_edge_def
  ref_stack_init_def ref_index_init_def ref_pushToHistory_def ref_handleUndo_def
  ref_handleRedo_def ref_setNodes_def ref_setEdges_def ref_pushHistory_def
  ref_App_setNodes_def ref_App_setEdges_def ref_handleLabelChange_def
  ref_current_callback_def ref_undo_def ref_redo_def
  write_live_nodes_def write_live_edges_def stack_view_def index_view_def deref_def
  separate_def ref_stack_wf_def ref_index_wf_def unshared_def allocated_def
  stack_newEdge_def App_newEdge_def restore_callback_def
  json_copy_nodes_def json_copy_node_def json_copy_edges_def Let_def

theorem history_array_sharing_witness:
  "separate (ref_handleUndo ref_stack_example) \<and>
   separate (ref_stack_mutate keep keep (LabelChange ''n1'' ''Start'') (ref_handleUndo ref_stack_example)) \<and>
   separate (ref_handleUndo (ref_handleUndo ref_stack_example)) \<and>
   separate (ref_handleRedo (ref_handleUndo ref_stack_example)) \<and>
   historyRef (stack_view (write_live_nodes [] (ref_handleUndo ref_stack_example)))
     = historyRef (stack_view (ref_handleUndo ref_stack_example)) \<and>
   redoRef (stack_view (write_live_edges [] (ref_handleUndo ref_stack_example)))
     = redoRef (stack_view (ref_handleUndo ref_stack_example)) \<and>
   \<not> skipHistoryRef_r ref_index_example \<and>
   ref_index_wf ref_index_example \<and>
   snd (last (history_r (ref_index_mutate keep keep append_edge
                          (ILabelChange (current_callback index_init) ''node_1'' ''Start'')
                          ref_index_example)))
     \<noteq> edges_ref (ref_index_mutate keep keep append_edge
                     (ILabelChange (current_callback index_init) ''node_1'' ''Start'')
                     ref_index_example) \<and>
   0 < historyIndex_r ref_index_example \<and>
   historyIndex_r ref_index_example \<le> length (history_r ref_index_example) \<and>
   edges_ref (ref_undo ref_index_example)
     = snd (history_r (ref_undo ref_index_example) ! historyIndex_r (ref_undo ref_index_example)) \<and>
   historyIndex_r (ref_undo ref_index_example) + 1 < length (history_r (ref_undo ref_index_example)) \<and>
   edges_ref (ref_redo (ref_undo ref_index_example))
     = snd (history_r (ref_redo (ref_undo ref_index_example))
              ! historyIndex_r (ref_redo (ref_undo ref_index_example)))"
proof -
  have a: "separate (ref_handleUndo ref_stack_example)"
    by (simp add: ref_defs)
  have b: "\<not> skipHistoryRef_r ref_index_example \<and> ref_index_wf ref_index_example \<and>
     0 < historyIndex_r ref_index_example \<and>
     historyIndex_r ref_index_example \<le> length (history_r ref_index_example)"
    by (simp add: ref_defs)
  have c: "historyIndex_r (ref_undo ref_index_example) + 1
             < length (history_r (ref_undo ref_index_example))"
    by (simp add: ref_defs)
  from history_array_sharing
         [of "ref_handleUndo ref_stack_example" keep keep "LabelChange ''n1'' ''Start''"
             "[]" "[]" ref_index_example keep keep append_edge
             "ILabelChange (current_callback index_init) ''node_1'' ''Start''"]
       history_array_sharing
         [of "ref_handleUndo ref_stack_example" keep keep "LabelChange ''n1'' ''Start''"
             "[]" "[]" "ref_undo ref_index_example" keep keep append_edge
             "ILabelChange (current_callback index_init) ''node_1'' ''Start''"]
       a b c
  show ?thesis by blast
qed

text \<open>
  In the indexed editor, after the connecting step of the scenario is
  undone, the live edges array is the one the current entry holds, and a
  write into it shows in the history.
\<close>

theorem history_array_sharing_counterexample:
  "index_view ref_index_example = index_example \<and>
   edges_ref (ref_undo ref_index_example)
     = snd (history_r (ref_undo ref_index_example) ! historyIndex_r (ref_undo ref_index_example)) \<and>
   history (index_view (write_live_edges
                          [App_newEdge ''9'' (scenario_connection ''node_2'' ''node_1'')]
                          (ref_undo ref_index_example)))
     \<noteq> history (index_view (ref_undo ref_index_example))"
  by (simp add: ref_defs index_defs)

end
